theory Spec2Isabelle
  imports Complex_Main
begin

section \<open>JavaScript numbers\<close>

text \<open>
  A JavaScript number is an IEEE 754 binary64 value. The finite ones are rational
  numbers, so a number is modelled as \<open>NaN\<close>, one of the two infinities, or the exact
  rational value of a finite double. The sign of zero is not modelled: no number of
  the modelled functions is a negative zero unless it is read from outside, and the
  functions here treat both zeros alike (\<open>-0 <= 0\<close> holds as \<open>0 <= 0\<close> does).
\<close>

datatype jsnum = NaN | PosInf | NegInf | Fin rat

text \<open>The number of binary digits of a positive integer.\<close>

function bitlength :: "int \<Rightarrow> int" where
  "bitlength n = (if n \<le> 0 then 0 else 1 + bitlength (n div 2))"
  by pat_completeness auto
termination
  by (relation "measure nat") auto

declare bitlength.simps [simp del]

text \<open>
  The binary exponent of a positive rational: the integer \<open>e\<close> with
  \<open>2^e \<le> x < 2^(e+1)\<close>.
\<close>

definition expo :: "rat \<Rightarrow> int" where
  "expo x =
     (if 1 \<le> x then bitlength \<lfloor>x\<rfloor> - 1
      else - bitlength (\<lceil>1 / x\<rceil> - 1))"

text \<open>Rounding to the nearest integer, a tie going to the even one.\<close>

definition round_half_even :: "rat \<Rightarrow> int" where
  "round_half_even x =
     (let f = \<lfloor>x\<rfloor>; d = x - of_int f
      in if d < 1 / 2 then f
         else if 1 / 2 < d then f + 1
         else if even f then f else f + 1)"

text \<open>
  The spacing of the doubles around \<open>x\<close>: 52 fraction bits below the exponent of
  \<open>x\<close>, and the fixed spacing \<open>2^-1074\<close> of the subnormal range below \<open>2^-1022\<close>.
\<close>

definition quantum :: "rat \<Rightarrow> rat" where
  "quantum x = 2 powi (max (expo \<bar>x\<bar>) (- 1022) - 52)"

text \<open>
  \<open>rd x\<close> is the double that the exact result \<open>x\<close> of an operation is rounded to
  (round to nearest, ties to even); a result that rounds to \<open>2^1024\<close> or beyond in
  magnitude, that is, one whose exponent is 1024 or more, is an infinity.
\<close>

definition rd :: "rat \<Rightarrow> jsnum" where
  "rd x =
     (let q = quantum x; y = of_int (round_half_even (x / q)) * q
      in if 1024 \<le> expo \<bar>y\<bar> then (if 0 < y then PosInf else NegInf)
         else Fin y)"

text \<open>The relational operators: every comparison with \<open>NaN\<close> is false.\<close>

fun js_lt :: "jsnum \<Rightarrow> jsnum \<Rightarrow> bool" where
  "js_lt NaN _ = False"
| "js_lt _ NaN = False"
| "js_lt PosInf _ = False"
| "js_lt _ PosInf = True"
| "js_lt _ NegInf = False"
| "js_lt NegInf _ = True"
| "js_lt (Fin a) (Fin b) = (a < b)"

fun js_le :: "jsnum \<Rightarrow> jsnum \<Rightarrow> bool" where
  "js_le NaN _ = False"
| "js_le _ NaN = False"
| "js_le _ PosInf = True"
| "js_le PosInf _ = False"
| "js_le NegInf _ = True"
| "js_le _ NegInf = False"
| "js_le (Fin a) (Fin b) = (a \<le> b)"

definition js_ge :: "jsnum \<Rightarrow> jsnum \<Rightarrow> bool" where
  "js_ge a b = js_le b a"

definition isNaN :: "jsnum \<Rightarrow> bool" where
  "isNaN x = (x = NaN)"

text \<open>
  Multiplication and division: the exact result, rounded. Zero times an infinity and
  the quotients \<open>0/0\<close> and \<open>\<infinity>/\<infinity>\<close> are \<open>NaN\<close>. A zero is the positive zero (see
  above), so a nonzero number divided by zero is the infinity of that number's sign.
\<close>

definition rat_sign :: "rat \<Rightarrow> int" where
  "rat_sign a = (if a < 0 then - 1 else if a = 0 then 0 else 1)"

definition js_sign :: "jsnum \<Rightarrow> int" where
  "js_sign x = (case x of NaN \<Rightarrow> 0 | PosInf \<Rightarrow> 1 | NegInf \<Rightarrow> - 1 | Fin a \<Rightarrow> rat_sign a)"

definition js_signed_inf :: "int \<Rightarrow> jsnum" where
  "js_signed_inf s = (if s = 0 then NaN else if 0 < s then PosInf else NegInf)"

fun js_mul :: "jsnum \<Rightarrow> jsnum \<Rightarrow> jsnum" where
  "js_mul NaN _ = NaN"
| "js_mul _ NaN = NaN"
| "js_mul (Fin a) (Fin b) = rd (a * b)"
| "js_mul x y = js_signed_inf (js_sign x * js_sign y)"

fun js_div :: "jsnum \<Rightarrow> jsnum \<Rightarrow> jsnum" where
  "js_div NaN _ = NaN"
| "js_div _ NaN = NaN"
| "js_div (Fin a) (Fin b) = (if b = 0 then js_signed_inf (rat_sign a) else rd (a / b))"
| "js_div (Fin a) _ = Fin 0"
| "js_div x (Fin b) = js_signed_inf (js_sign x * (if b < 0 then - 1 else 1))"
| "js_div _ _ = NaN"

fun js_add :: "jsnum \<Rightarrow> jsnum \<Rightarrow> jsnum" where
  "js_add NaN _ = NaN"
| "js_add _ NaN = NaN"
| "js_add (Fin a) (Fin b) = rd (a + b)"
| "js_add PosInf NegInf = NaN"
| "js_add NegInf PosInf = NaN"
| "js_add (Fin a) y = y"
| "js_add x _ = x"

fun js_neg :: "jsnum \<Rightarrow> jsnum" where
  "js_neg NaN = NaN"
| "js_neg PosInf = NegInf"
| "js_neg NegInf = PosInf"
| "js_neg (Fin a) = Fin (- a)"

section \<open>JavaScript strings\<close>

text \<open>
  A JavaScript string is a sequence of UTF-16 code units. A \<^typ>\<open>char\<close> stands for
  the code unit of the same number, so the strings of the model are those whose code
  units lie in U+0000 to U+00FF; \<open>length\<close>, \<open>take\<close> and \<open>drop\<close> count code units as
  \<open>length\<close>, \<open>substr\<close> and \<open>slice\<close> do.
\<close>

text \<open>
  White space and line terminators in that range: the characters that \<open>\s\<close> matches
  and that \<open>parseFloat\<close> skips.
\<close>

definition isSpace :: "char \<Rightarrow> bool" where
  "isSpace c \<longleftrightarrow>
     c \<in> set [CHR 0x09, CHR 0x0A, CHR 0x0B, CHR 0x0C, CHR 0x0D, CHR 0x20, CHR 0xA0]"

definition isDigit :: "char \<Rightarrow> bool" where
  "isDigit c \<longleftrightarrow> c \<in> set ''0123456789''"

text \<open>The characters that \<open>\w\<close> matches (no \<open>u\<close> or \<open>i\<close> flag): \<open>[A-Za-z0-9_]\<close>.\<close>

definition isWord :: "char \<Rightarrow> bool" where
  "isWord c \<longleftrightarrow>
     c \<in> set ''ABCDEFGHIJKLMNOPQRSTUVWXYZabcdefghijklmnopqrstuvwxyz0123456789_''"

definition digit_char :: "int \<Rightarrow> char" where
  "digit_char d = ''0123456789'' ! nat d"

definition digit_value :: "char \<Rightarrow> int" where
  "digit_value c = of_char c - 48"

text \<open>
  The decimal digits of an integer that is not negative, and the number a digit
  string denotes.
\<close>

function decimal_digits :: "int \<Rightarrow> string" where
  "decimal_digits n =
     (if n < 10 then [digit_char n]
      else decimal_digits (n div 10) @ [digit_char (n mod 10)])"
  by pat_completeness auto
termination
  by (relation "measure nat") auto

declare decimal_digits.simps [simp del]

definition decimal_value :: "string \<Rightarrow> int" where
  "decimal_value ds = foldl (\<lambda>n c. 10 * n + digit_value c) 0 ds"

subsection \<open>parseFloat\<close>

text \<open>
  \<open>parseFloat\<close> skips leading white space and reads the longest prefix of the rest that
  is a \<open>StrDecimalLiteral\<close>: an optional sign, then \<open>Infinity\<close> or decimal digits with
  an optional fraction and an optional exponent part. The result is the double nearest
  to the value read, and \<open>NaN\<close> when no prefix is such a literal. (The standard lets an
  implementation approximate a literal of more than 20 significant digits; the
  engines in use round it correctly, as the model does.)
\<close>

text \<open>
  The value of the \<open>ExponentPart\<close> that the string starts with, 0 when it starts with
  none (an \<open>e\<close> that no digit follows is not part of the literal).
\<close>

definition parse_exponent :: "string \<Rightarrow> int" where
  "parse_exponent s =
     (case s of
        [] \<Rightarrow> 0
      | c # r \<Rightarrow>
          if c = CHR ''e'' \<or> c = CHR ''E'' then
            (case r of
               [] \<Rightarrow> 0
             | d # r' \<Rightarrow>
                 if isDigit d then decimal_value (takeWhile isDigit r)
                 else if d = CHR ''+'' \<and> takeWhile isDigit r' \<noteq> []
                   then decimal_value (takeWhile isDigit r')
                 else if d = CHR ''-'' \<and> takeWhile isDigit r' \<noteq> []
                   then - decimal_value (takeWhile isDigit r')
                 else 0)
          else 0)"

definition str_unsigned_decimal :: "string \<Rightarrow> jsnum" where
  "str_unsigned_decimal s =
     (if take 8 s = ''Infinity'' then PosInf
      else
        let ip = takeWhile isDigit s; r = dropWhile isDigit s
        in if r \<noteq> [] \<and> hd r = CHR ''.'' then
             (let fp = takeWhile isDigit (tl r); r2 = dropWhile isDigit (tl r)
              in if ip = [] \<and> fp = [] then NaN
                 else rd (of_int (decimal_value (ip @ fp))
                          * 10 powi (parse_exponent r2 - int (length fp))))
           else if ip = [] then NaN
           else rd (of_int (decimal_value ip) * 10 powi parse_exponent r))"

definition parseFloat :: "string \<Rightarrow> jsnum" where
  "parseFloat s =
     (let t = dropWhile isSpace s
      in if t \<noteq> [] \<and> hd t = CHR ''+'' then str_unsigned_decimal (tl t)
         else if t \<noteq> [] \<and> hd t = CHR ''-'' then js_neg (str_unsigned_decimal (tl t))
         else str_unsigned_decimal t)"

subsection \<open>Number.prototype.toFixed\<close>

text \<open>
  \<open>x.toFixed(f)\<close>: a number that is not finite gives its name; a magnitude of
  \<open>10^21\<close> or more is written as \<open>String(x)\<close> writes it, which is not modelled and is the
  parameter \<open>numberToString\<close>; otherwise let \<open>n\<close> be the integer nearest to
  \<open>|x| * 10^f\<close>, the larger one of two, and write its digits, filled up with zeros to
  \<open>f + 1\<close> digits, with a point before the last \<open>f\<close> of them.
\<close>

definition toFixed :: "(rat \<Rightarrow> string) \<Rightarrow> jsnum \<Rightarrow> nat \<Rightarrow> string" where
  "toFixed numberToString x f =
     (case x of
        NaN \<Rightarrow> ''NaN''
      | PosInf \<Rightarrow> ''Infinity''
      | NegInf \<Rightarrow> ''-Infinity''
      | Fin a \<Rightarrow>
          let s = (if a < 0 then ''-'' else []); a = \<bar>a\<bar>
          in if 10 ^ 21 \<le> a then s @ numberToString a
             else
               let n = \<lfloor>a * 10 ^ f + 1 / 2\<rfloor>;
                   m = decimal_digits n;
                   m = (if f \<noteq> 0 \<and> length m \<le> f
                        then replicate (f + 1 - length m) CHR ''0'' @ m else m);
                   k = length m
               in if f \<noteq> 0 then s @ take (k - f) m @ ''.'' @ drop (k - f) m
                  else s @ m)"

subsection \<open>String.prototype.split and String.prototype.replace\<close>

text \<open>
  \<open>e.split(/\:\s+/)\<close>: the pieces of the string between the matches of a colon
  followed by one or more white space characters (as many as there are). The first
  argument is the piece read so far, the second the rest of the string.
\<close>

function split_colon_space :: "string \<Rightarrow> string \<Rightarrow> string list" where
  "split_colon_space piece [] = [piece]"
| "split_colon_space piece (c # cs) =
     (if c = CHR '':'' \<and> cs \<noteq> [] \<and> isSpace (hd cs)
      then piece # split_colon_space [] (dropWhile isSpace cs)
      else split_colon_space (piece @ [c]) cs)"
  by pat_completeness auto
termination
  by (relation "measure (\<lambda>(piece, s). length s)")
     (auto simp add: less_Suc_eq_le length_dropWhile_le)

text \<open>
  The replacement text of \<open>replace\<close> for a pattern without capture groups: \<open>$$\<close> is a
  dollar sign, \<open>$&\<close> the matched text, \<open>$`\<close> the text before the match and \<open>$'\<close> the
  text after it; every other character stands for itself.
\<close>

fun getSubstitution :: "string \<Rightarrow> string \<Rightarrow> string \<Rightarrow> string \<Rightarrow> string" where
  "getSubstitution matched preceding following (c # d # r) =
     (if c = CHR ''$'' \<and> d = CHR ''$'' then CHR ''$'' # getSubstitution matched preceding following r
      else if c = CHR ''$'' \<and> d = CHR ''&'' then matched @ getSubstitution matched preceding following r
      else if c = CHR ''$'' \<and> d = CHR 0x60 then preceding @ getSubstitution matched preceding following r
      else if c = CHR ''$'' \<and> d = CHR 0x27 then following @ getSubstitution matched preceding following r
      else c # getSubstitution matched preceding following (d # r))"
| "getSubstitution matched preceding following r = r"

text \<open>
  \<open>s.replace(/\w+$/, replacement)\<close>: the match is the longest run of word characters
  that ends the string; a string that ends with no word character is returned as it
  is.
\<close>

definition replace_trailing_word :: "string \<Rightarrow> string \<Rightarrow> string" where
  "replace_trailing_word s replacement =
     (let matched = rev (takeWhile isWord (rev s));
          preceding = take (length s - length matched) s
      in if matched = [] then s
         else preceding @ getSubstitution matched preceding [] replacement)"

section \<open>The helper functions of the Neighborhood Discovery widget\<close>

text \<open>
  Two built-ins of the language are not modelled and are parameters of what follows:
  \<open>String.prototype.toUpperCase\<close>, and the constructor \<open>URL\<close> with the property
  \<open>hostname\<close> of the object it makes. \<open>hostname b s\<close> is the host name that
  \<open>new URL(s).hostname\<close> gives, and \<open>None\<close> when \<open>new URL(s)\<close> throws, \<open>s\<close> being no URL.
\<close>

record builtins =
  toUpperCase :: "string \<Rightarrow> string"
  hostname :: "string \<Rightarrow> string option"

text \<open>
  \<open>formatPlaceType(str)\<close>: the first character in upper case
  (\<open>str.charAt(0).toUpperCase() + str.slice(1)\<close>), and every underscore replaced by a
  space.
\<close>

definition formatPlaceType :: "builtins \<Rightarrow> string \<Rightarrow> string" where
  "formatPlaceType b str =
     (let capitalized = toUpperCase b (take 1 str) @ drop 1 str
      in map (\<lambda>c. if c = CHR ''_'' then CHR '' '' else c) capitalized)"

text \<open>
  \<open>initArray(arraySize)\<close>: zeros are pushed while the length of the array is less than
  the size. The size is a finite number here: on an infinite size the loop would not
  end.
\<close>

function initArray_loop :: "nat list \<Rightarrow> rat \<Rightarrow> nat list" where
  "initArray_loop array arraySize =
     (if of_nat (length array) < arraySize then initArray_loop (array @ [0]) arraySize
      else array)"
  by pat_completeness auto
termination
proof (relation "measure (\<lambda>(array, arraySize). nat \<lceil>arraySize\<rceil> - length array)")
  show "wf (measure (\<lambda>(array, arraySize). nat \<lceil>arraySize\<rceil> - length array))"
    by simp
next
  fix array :: "nat list" and arraySize :: rat
  assume "of_nat (length array) < arraySize"
  then have "int (length array) < \<lceil>arraySize\<rceil>"
    by (simp add: less_ceiling_iff)
  then show "((array @ [0], arraySize), (array, arraySize))
      \<in> measure (\<lambda>(array, arraySize). nat \<lceil>arraySize\<rceil> - length array)"
    by simp
qed

declare initArray_loop.simps [simp del]

definition initArray :: "rat \<Rightarrow> nat list" where
  "initArray arraySize = initArray_loop [] arraySize"

text \<open>
  An object with a rating and the three arrays of star icons that \<open>addStarIcons\<close>
  adds: a place or a review. A property that is absent is \<open>None\<close>. The rating is a
  finite number, as the ratings of the places service are (a \<open>NaN\<close> rating is as good
  as absent, \<open>!obj.rating\<close> holding for it, and on an infinite one \<open>initArray\<close> would
  not end).
\<close>

record rated =
  rating :: "rat option"
  fullStarIcons :: "nat list option"
  halfStarIcons :: "nat list option"
  emptyStarIcons :: "nat list option"

text \<open>
  \<open>addStarIcons(obj)\<close>. \<open>Math.round\<close> rounds to the nearest integer, a tie going up;
  twice a double and half an integer are exact, and so is the rest on the integers
  below \<open>2^53\<close>.
\<close>

definition addStarIcons :: "'a rated_scheme \<Rightarrow> 'a rated_scheme" where
  "addStarIcons obj =
     (case rating obj of
        None \<Rightarrow> obj
      | Some r \<Rightarrow>
          if r = 0 then obj
          else
            let starsOutOfTen = \<lfloor>2 * r + 1 / 2\<rfloor>;
                fullStars = \<lfloor>(of_int starsOutOfTen :: rat) / 2\<rfloor>;
                halfStars = (if (of_int fullStars :: rat) \<noteq> of_int starsOutOfTen / 2 then 1 else 0);
                emptyStars = 5 - fullStars - halfStars
            in obj\<lparr>fullStarIcons := Some (initArray (of_int fullStars)),
                   halfStarIcons := Some (initArray (of_int halfStars)),
                   emptyStarIcons := Some (initArray (of_int emptyStars))\<rparr>)"

subsection \<open>parseDaysHours\<close>

record days_hours =
  days :: string
  hours :: "string option"

text \<open>
  The first \<open>map\<close>: the string is split, the day is the first three characters of the
  first piece and the hours are the second piece, \<open>undefined\<close> when there is none.
\<close>

definition day_and_hours :: "string \<Rightarrow> days_hours" where
  "day_and_hours s =
     (let e = split_colon_space [] s
      in \<lparr>days = take 3 (hd e), hours = (if 1 < length e then Some (e ! 1) else None)\<rparr>)"

text \<open>
  The loop over the array, \<open>i\<close> being the index. When the hours of the element before
  and of the element at \<open>i\<close> are the same, the days of the element before are extended
  and the element at \<open>i\<close> is removed (\<open>splice(i--, 1)\<close>, so that the next round looks at
  the same index again).
\<close>

function parseDaysHours_loop :: "nat \<Rightarrow> days_hours list \<Rightarrow> days_hours list" where
  "parseDaysHours_loop i daysHours =
     (if i < length daysHours then
        (if hours (daysHours ! (i - 1)) = hours (daysHours ! i) then
           let prev = daysHours ! (i - 1);
               merged =
                 (if CHR ''-'' \<in> set (days prev)
                  then prev\<lparr>days := replace_trailing_word (days prev) (days (daysHours ! i))\<rparr>
                  else prev\<lparr>days := days prev @ '' - '' @ days (daysHours ! i)\<rparr>);
               daysHours = daysHours[i - 1 := merged]
           in parseDaysHours_loop i (take i daysHours @ drop (Suc i) daysHours)
         else parseDaysHours_loop (i + 1) daysHours)
      else daysHours)"
  by pat_completeness auto
termination
  by (relation "measure (\<lambda>(i, daysHours). length daysHours - i)") auto

declare parseDaysHours_loop.simps [simp del]

definition parseDaysHours :: "string list \<Rightarrow> days_hours list" where
  "parseDaysHours weekday_text = parseDaysHours_loop 1 (map day_and_hours weekday_text)"

section \<open>The place details of the Neighborhood Discovery widget\<close>

text \<open>Maximum number of place photos to show on the details panel.\<close>

definition ND_NUM_PLACE_PHOTOS_MAX :: nat where
  "ND_NUM_PLACE_PHOTOS_MAX = 6"

text \<open>Mapping of Place Types to Material Icons used to render custom map markers.\<close>

definition ND_MARKER_ICONS_BY_TYPE :: "(string \<times> string) list" where
  "ND_MARKER_ICONS_BY_TYPE =
     [(''_default'', ''circle''),
      (''hospital'', ''local_hospital''),
      (''pharmacy'', ''local_pharmacy'')]"

text \<open>
  The mapping is an object literal, so \<open>type in ND_MARKER_ICONS_BY_TYPE\<close> also holds for
  the names of the properties that every object inherits from \<open>Object.prototype\<close>;
  these are the ones of the language standard. The value found under such a name is
  not the name of an icon.
\<close>

definition Object_prototype_properties :: "string list" where
  "Object_prototype_properties =
     [''constructor'', ''hasOwnProperty'', ''isPrototypeOf'', ''propertyIsEnumerable'',
      ''toLocaleString'', ''toString'', ''valueOf'', ''__proto__'', ''__defineGetter__'',
      ''__defineSetter__'', ''__lookupGetter__'', ''__lookupSetter__'']"

datatype icon_value = Icon string | Inherited string

definition icon_by_type :: "string \<Rightarrow> icon_value option" where
  "icon_by_type type =
     (case map_of ND_MARKER_ICONS_BY_TYPE type of
        Some icon \<Rightarrow> Some (Icon icon)
      | None \<Rightarrow> if type \<in> set Object_prototype_properties then Some (Inherited type) else None)"

subsection \<open>What the places service returns\<close>

text \<open>
  The statuses of the places service (\<open>google.maps.places.PlacesServiceStatus\<close>), and
  the part of a \<open>PlaceResult\<close> that the widget reads. A property that is absent is
  \<open>None\<close>. A photo of the service has the method \<open>getUrl\<close>, which is given the maximal
  width and height.
\<close>

datatype PlacesServiceStatus =
  INVALID_REQUEST | NOT_FOUND | OK | OVER_QUERY_LIMIT | REQUEST_DENIED | UNKNOWN_ERROR
  | ZERO_RESULTS

type_synonym LatLng = "rat \<times> rat"

record PlacePhoto =
  getUrl :: "nat \<times> nat \<Rightarrow> string"
  html_attributions :: "string list"

record review = rated +
  author_name :: string
  review_text :: string

record PlaceResult =
  result_name :: "string option"
  result_geometry :: "LatLng option option"
  result_formatted_address :: "string option"
  result_photos :: "PlacePhoto list option"
  result_types :: "string list option"
  result_url :: "string option"
  result_website :: "string option"
  result_formatted_phone_number :: "string option"
  result_opening_hours :: "string list option option"
  result_rating :: "rat option"
  result_user_ratings_total :: "rat option"
  result_price_level :: "rat option"
  result_reviews :: "review list option"

text \<open>
  \<open>result_geometry\<close> is the property \<open>geometry\<close> with its \<open>location\<close>, and
  \<open>result_opening_hours\<close> the property \<open>opening_hours\<close> with its \<open>weekday_text\<close>: each
  may be absent where the object that holds it is there.
\<close>

subsection \<open>The places of the widget\<close>

record photo =
  urlSmall :: string
  urlLarge :: string
  attrs :: "string list"

record place = rated +
  placeId :: string
  fetchedFields :: "string set"
  name :: "string option"
  coords :: "LatLng option"
  address :: "string option"
  photos :: "photo list option"
  place_type :: "string option"
  icon :: "icon_value option"
  url :: "string option"
  website :: "string option"
  websiteDomain :: "string option"
  phoneNumber :: "string option"
  openingHours :: "days_hours list option"
  numReviews :: "rat option"
  priceLevel :: "rat option"
  dollarSigns :: "nat list option"
  reviews :: "review list option"

text \<open>The object \<open>{placeId: placeId, fetchedFields: new Set(['place_id'])}\<close>.\<close>

definition new_place :: "string \<Rightarrow> place" where
  "new_place pid =
     \<lparr>rating = None, fullStarIcons = None, halfStarIcons = None, emptyStarIcons = None,
      placeId = pid, fetchedFields = {''place_id''},
      name = None, coords = None, address = None, photos = None, place_type = None,
      icon = None, url = None, website = None, websiteDomain = None, phoneNumber = None,
      openingHours = None, numReviews = None, priceLevel = None, dollarSigns = None,
      reviews = None\<rparr>"

text \<open>A string is truthy when it is there and not empty, a number when it is not 0.\<close>

definition truthy_string :: "string option \<Rightarrow> bool" where
  "truthy_string v = (case v of None \<Rightarrow> False | Some s \<Rightarrow> s \<noteq> [])"

definition truthy_number :: "rat option \<Rightarrow> bool" where
  "truthy_number v = (case v of None \<Rightarrow> False | Some x \<Rightarrow> x \<noteq> 0)"

text \<open>
  How a run of statements ends: normally, or with a \<open>TypeError\<close> thrown. The place is
  an object that is changed in place, so what was assigned before the error stays.
\<close>

datatype completion = Normal | TypeError

text \<open>
  The basic details. \<open>formatPlaceType(result.types[0])\<close> throws on an empty array of
  types, the argument being \<open>undefined\<close>. The loop stops at the first type that is \<open>in\<close>
  the mapping of icons.
\<close>

definition set_type_and_icon :: "builtins \<Rightarrow> string list \<Rightarrow> place \<Rightarrow> place" where
  "set_type_and_icon b types place =
     (case find (\<lambda>type. icon_by_type type \<noteq> None) types of
        Some type \<Rightarrow>
          place\<lparr>place_type := Some (formatPlaceType b type), icon := icon_by_type type\<rparr>
      | None \<Rightarrow>
          place\<lparr>place_type := Some (formatPlaceType b (hd types)),
                icon := icon_by_type ''_default''\<rparr>)"

definition basic_details :: "builtins \<Rightarrow> PlaceResult \<Rightarrow> place \<Rightarrow> place \<times> completion"
  where
  "basic_details b result place =
     (let place = (if truthy_string (result_name result)
                   then place\<lparr>name := result_name result\<rparr> else place);
          place = (case result_geometry result of
                     Some location \<Rightarrow> place\<lparr>coords := location\<rparr> | None \<Rightarrow> place);
          place = (if truthy_string (result_formatted_address result)
                   then place\<lparr>address := result_formatted_address result\<rparr> else place);
          place = (case result_photos result of
                     Some ps \<Rightarrow>
                       place\<lparr>photos := Some (take ND_NUM_PLACE_PHOTOS_MAX
                         (map (\<lambda>photo. \<lparr>urlSmall = getUrl photo (200, 200),
                                         urlLarge = getUrl photo (1200, 1200),
                                         attrs = html_attributions photo\<rparr>) ps))\<rparr>
                   | None \<Rightarrow> place)
      in case result_types result of
           Some [] \<Rightarrow> (place, TypeError)
         | types \<Rightarrow>
             let place = (case types of
                            Some ts \<Rightarrow> set_type_and_icon b ts place | None \<Rightarrow> place);
                 place = (if truthy_string (result_url result)
                          then place\<lparr>url := result_url result\<rparr> else place)
             in (place, Normal))"

text \<open>
  The contact details. \<open>new URL(place.website)\<close> throws on a string that is no URL,
  and \<open>parseDaysHours\<close> throws on opening hours without \<open>weekday_text\<close>.
\<close>

definition contact_details ::
  "builtins \<Rightarrow> PlaceResult \<Rightarrow> place \<Rightarrow> place \<times> completion" where
  "contact_details b result place =
     (let site = (if truthy_string (result_website result)
                  then map_option (hostname b) (result_website result) else None);
          place = (if truthy_string (result_website result)
                   then place\<lparr>website := result_website result\<rparr> else place)
      in if site = Some None then (place, TypeError)
         else
           let place = (case site of
                          Some domain \<Rightarrow> place\<lparr>websiteDomain := domain\<rparr> | None \<Rightarrow> place);
               place = (if truthy_string (result_formatted_phone_number result)
                        then place\<lparr>phoneNumber := result_formatted_phone_number result\<rparr>
                        else place)
           in case result_opening_hours result of
                None \<Rightarrow> (place, Normal)
              | Some None \<Rightarrow> (place, TypeError)
              | Some (Some weekday_text) \<Rightarrow>
                  (place\<lparr>openingHours := Some (parseDaysHours weekday_text)\<rparr>, Normal))"

text \<open>The review details: nothing here throws.\<close>

definition review_details :: "PlaceResult \<Rightarrow> place \<Rightarrow> place" where
  "review_details result place =
     (let place = (if truthy_number (result_rating result)
                   then addStarIcons (place\<lparr>rating := result_rating result\<rparr>) else place);
          place = (if truthy_number (result_user_ratings_total result)
                   then place\<lparr>numReviews := result_user_ratings_total result\<rparr> else place);
          place = (if truthy_number (result_price_level result)
                   then place\<lparr>priceLevel := result_price_level result,
                              dollarSigns := map_option initArray (result_price_level result)\<rparr>
                   else place)
      in case result_reviews result of
           Some rs \<Rightarrow> place\<lparr>reviews := Some (map addStarIcons rs)\<rparr>
         | None \<Rightarrow> place)"

text \<open>
  The part of \<open>processResult\<close> after the test of the status, up to the call of the
  callback: the details are assigned, and when no error was thrown the missing fields
  are added to the fetched fields of the place.
\<close>

definition assign_details ::
  "builtins \<Rightarrow> PlaceResult \<Rightarrow> string list \<Rightarrow> place \<Rightarrow> place \<times> completion"
  where
  "assign_details b result missingFields place =
     (case basic_details b result place of
        (place, TypeError) \<Rightarrow> (place, TypeError)
      | (place, Normal) \<Rightarrow>
          (case contact_details b result place of
             (place, TypeError) \<Rightarrow> (place, TypeError)
           | (place, Normal) \<Rightarrow>
               let place = review_details result place
               in (place\<lparr>fetchedFields := fetchedFields place \<union> set missingFields\<rparr>, Normal)))"

subsection \<open>The widget and what it does\<close>

text \<open>
  A request to the places service: \<open>{placeId: placeId, fields: missingFields}\<close>.
\<close>

type_synonym request = "string \<times> string list"

text \<open>
  Every call of \<open>fetchPlaceDetails\<close> that has fields to fetch makes a function
  \<open>processResult\<close> of its own, which holds the request, the count of retries and the
  callback of the call. (Its place is the one that \<open>placeIdsToDetails\<close> holds for the
  place identifier of the request: an entry of that map is set once and never
  replaced.)
\<close>

record 'cb fetch =
  request :: request
  retryCount :: nat
  callback :: 'cb

text \<open>
  The state: the two maps of the widget, the functions \<open>processResult\<close> made so far
  (each known by its position), the calls of \<open>getDetails\<close> that the service has not
  answered yet and the timeouts that have not fired yet, both by the position of
  their \<open>processResult\<close> (a function has at most one of them at a time). \<open>placeIdsToAutocompleteResults\<close> is \<open>undefined\<close> (\<open>None\<close>)
  until the search input is initialized.
\<close>

record 'cb widget =
  placeIdsToDetails :: "string \<rightharpoonup> place"
  placeIdsToAutocompleteResults :: "(string \<rightharpoonup> PlaceResult) option"
  fetches :: "'cb fetch list"
  inFlight :: "nat set"
  timers :: "nat set"

text \<open>
  What a step does to the outside: it calls a callback with a place, calls
  \<open>detailsService.getDetails(request, processResult)\<close>, sets a timeout with a delay in
  milliseconds, or ends with an error that nothing catches.
\<close>

datatype 'cb effect =
    Callback 'cb place
  | GetDetails nat request
  | SetTimeout nat jsnum
  | Uncaught completion

text \<open>
  \<open>initializePlaceDetails\<close>: every place of the configuration is entered and its
  fetched fields are set to the place identifier alone.
\<close>

definition initializePlaceDetails :: "place list \<Rightarrow> 'cb widget" where
  "initializePlaceDetails places =
     \<lparr>placeIdsToDetails =
        foldl (\<lambda>m place. m(placeId place \<mapsto> place\<lparr>fetchedFields := {''place_id''}\<rparr>))
          Map.empty places,
      placeIdsToAutocompleteResults = None,
      fetches = [], inFlight = {}, timers = {}\<rparr>"

text \<open>
  \<open>processResult(result, status)\<close> of the function at position \<open>n\<close>. The result is
  \<open>null\<close> (\<open>None\<close>) when the service has none, which it has with the status \<open>OK\<close>;
  reading a property of \<open>null\<close> or of a place that is not there throws. \<open>random\<close> is
  the number that \<open>Math.random()\<close> returns when it is called; \<open>Math.pow(2, retryCount)\<close>
  is exact. The timeout set on a rate limit calls \<open>getDetails\<close> again when it fires
  (see \<open>timer_fired\<close>).
\<close>

definition processResult ::
  "builtins \<Rightarrow> nat \<Rightarrow> PlaceResult option \<Rightarrow> PlacesServiceStatus \<Rightarrow> jsnum
     \<Rightarrow> 'cb widget \<Rightarrow> 'cb widget \<times> 'cb effect list" where
  "processResult b n result status random w =
     (let f = fetches w ! n in
      if status \<noteq> OK then
        (if status = OVER_QUERY_LIMIT \<and> retryCount f < 5 then
           let delay = js_mul (js_add (rd (2 ^ retryCount f)) random) (rd 500)
           in (w\<lparr>fetches := (fetches w)[n := f\<lparr>retryCount := retryCount f + 1\<rparr>],
                 timers := insert n (timers w)\<rparr>,
               [SetTimeout n delay])
         else (w, []))
      else
        (case (result, placeIdsToDetails w (fst (request f))) of
           (Some result, Some place) \<Rightarrow>
             (case assign_details b result (snd (request f)) place of
                (place, TypeError) \<Rightarrow>
                  (w\<lparr>placeIdsToDetails := (placeIdsToDetails w)(fst (request f) \<mapsto> place)\<rparr>,
                   [Uncaught TypeError])
              | (place, Normal) \<Rightarrow>
                  (w\<lparr>placeIdsToDetails := (placeIdsToDetails w)(fst (request f) \<mapsto> place)\<rparr>,
                   [Callback (callback f) place]))
         | _ \<Rightarrow> (w, [Uncaught TypeError])))"

text \<open>
  \<open>widget.fetchPlaceDetails(placeId, fields, callback)\<close>, the three arguments being
  \<open>pid\<close>, \<open>fields'\<close> and \<open>cb\<close>. An empty place identifier and fields that are
  \<open>undefined\<close> (\<open>None\<close>) are falsy. The result of the autocomplete
  for the place, when there is one, is processed at once and no request is sent.
\<close>

definition fetchPlaceDetails ::
  "builtins \<Rightarrow> string \<Rightarrow> string list option \<Rightarrow> 'cb
     \<Rightarrow> 'cb widget \<Rightarrow> 'cb widget \<times> 'cb effect list" where
  "fetchPlaceDetails b pid fields' cb w =
     (if pid = [] \<or> fields' = None then (w, [])
      else
        let place = (case placeIdsToDetails w pid of
                       Some place \<Rightarrow> place | None \<Rightarrow> new_place pid);
            w = w\<lparr>placeIdsToDetails := (placeIdsToDetails w)(pid \<mapsto> place)\<rparr>;
            missingFields = filter (\<lambda>field. field \<notin> fetchedFields place) (the fields')
        in if length missingFields = 0 then (w, [Callback cb place])
           else
             let n = length (fetches w);
                 w = w\<lparr>fetches := fetches w
                         @ [\<lparr>request = (pid, missingFields), retryCount = 0, callback = cb\<rparr>]\<rparr>;
                 autoCompleteResult =
                   (case placeIdsToAutocompleteResults w of
                      Some results \<Rightarrow> results pid | None \<Rightarrow> None)
             in case autoCompleteResult of
                  Some result \<Rightarrow> processResult b n (Some result) OK NaN w
                | None \<Rightarrow>
                    (w\<lparr>inFlight := insert n (inFlight w)\<rparr>,
                     [GetDetails n (pid, missingFields)]))"

text \<open>
  The timeout set by the function at position \<open>n\<close> fires: the request of that
  function is sent again, as it was made.
\<close>

definition timer_fired :: "nat \<Rightarrow> 'cb widget \<Rightarrow> 'cb widget \<times> 'cb effect list" where
  "timer_fired n w =
     (w\<lparr>timers := timers w - {n}, inFlight := insert n (inFlight w)\<rparr>,
      [GetDetails n (request (fetches w ! n))])"

text \<open>
  What happens to the widget: the page calls \<open>fetchPlaceDetails\<close>, the service answers
  a call of \<open>getDetails\<close> that is in flight, or a timeout that was set fires. An answer
  to a call that is not in flight and a timeout that was not set do not happen
  (\<open>None\<close>).
\<close>

datatype 'cb event =
    Fetch string "string list option" 'cb
  | Response nat "PlaceResult option" PlacesServiceStatus jsnum
  | TimerFired nat

fun step ::
  "builtins \<Rightarrow> 'cb event \<Rightarrow> 'cb widget \<Rightarrow> ('cb widget \<times> 'cb effect list) option" where
  "step b (Fetch pid fields' cb) w = Some (fetchPlaceDetails b pid fields' cb w)"
| "step b (Response n result status random) w =
     (if n \<in> inFlight w \<and> n < length (fetches w)
      then Some (processResult b n result status random
                   (w\<lparr>inFlight := inFlight w - {n}\<rparr>))
      else None)"
| "step b (TimerFired n) w =
     (if n \<in> timers w \<and> n < length (fetches w) then Some (timer_fired n w) else None)"

text \<open>A sequence of events, with all that it does to the outside, in order.\<close>

fun run ::
  "builtins \<Rightarrow> 'cb event list \<Rightarrow> 'cb widget \<Rightarrow> ('cb widget \<times> 'cb effect list) option"
  where
  "run b [] w = Some (w, [])"
| "run b (e # es) w =
     (case step b e w of
        None \<Rightarrow> None
      | Some (w', effects) \<Rightarrow>
          (case run b es w' of
             None \<Rightarrow> None
           | Some (w'', effects') \<Rightarrow> Some (w'', effects @ effects')))"

section \<open>The BMI calculator\<close>

text \<open>
  The part of the page that \<open>calculateBMI\<close> reads and writes: the values of the form
  fields \<open>age\<close>, \<open>gender\<close>, \<open>height\<close> and \<open>weight\<close>, the content of the elements
  \<open>result\<close> and \<open>result-category\<close>, the alerts shown so far, and whether the default
  action of the submit event has been prevented.
\<close>

record page =
  age_value :: string
  gender_value :: string
  height_value :: string
  weight_value :: string
  result_innerHTML :: string
  result_category_innerHTML :: string
  alerts :: "string list"
  defaultPrevented :: bool

text \<open>
  The category chosen for a gender and a BMI. The variable \<open>category\<close> stays
  \<open>undefined\<close> (\<open>None\<close>) for a gender that is neither \<open>male\<close> nor \<open>female\<close>. A decimal
  literal of the source denotes the double nearest to it.
\<close>

definition bmi_category :: "string \<Rightarrow> jsnum \<Rightarrow> string option" where
  "bmi_category gender bmi =
     (if gender = ''male'' then
        (if js_lt bmi (rd (185 / 10)) then Some ''Underweight''
         else if js_ge bmi (rd (185 / 10)) \<and> js_lt bmi (rd (249 / 10)) then Some ''Normal weight''
         else if js_ge bmi (rd 25) \<and> js_lt bmi (rd (299 / 10)) then Some ''Overweight''
         else Some ''Obese'')
      else if gender = ''female'' then
        (if js_lt bmi (rd (185 / 10)) then Some ''Underweight''
         else if js_ge bmi (rd (185 / 10)) \<and> js_lt bmi (rd (249 / 10)) then Some ''Normal weight''
         else if js_ge bmi (rd 25) \<and> js_lt bmi (rd (299 / 10)) then Some ''Overweight''
         else Some ''Obese'')
      else None)"

text \<open>String concatenation with a value that may be \<open>undefined\<close>.\<close>

definition string_of :: "string option \<Rightarrow> string" where
  "string_of v = (case v of None \<Rightarrow> ''undefined'' | Some s \<Rightarrow> s)"

text \<open>The BMI that the function computes from the two parsed numbers.\<close>

definition bmi_of :: "jsnum \<Rightarrow> jsnum \<Rightarrow> jsnum" where
  "bmi_of height weight =
     (let heightInMeters = js_div height (rd 100)
      in js_div weight (js_mul heightInMeters heightInMeters))"

text \<open>
  \<open>calculateBMI(event)\<close>. The age is read and parsed but never used. The early return
  after the alert leaves both result elements as they were.
\<close>

definition calculateBMI :: "(rat \<Rightarrow> string) \<Rightarrow> page \<Rightarrow> page" where
  "calculateBMI numberToString p0 =
     (let p = p0\<lparr>defaultPrevented := True\<rparr>;
          gender = gender_value p;
          height = parseFloat (height_value p);
          weight = parseFloat (weight_value p)
      in if isNaN height \<or> isNaN weight \<or> js_le height (rd 0) \<or> js_le weight (rd 0)
         then p\<lparr>alerts := alerts p @ [''Please enter valid height and weight.'']\<rparr>
         else
           let bmi = bmi_of height weight;
               p = p\<lparr>result_innerHTML := ''Your BMI is: '' @ toFixed numberToString bmi 2\<rparr>;
               category = bmi_category gender bmi
           in p\<lparr>result_category_innerHTML := ''BMI Category: '' @ string_of category\<rparr>)"

section \<open>Notions for the statements about the place details\<close>

text \<open>
  The place that \<open>fetchPlaceDetails\<close> works on: the one that \<open>placeIdsToDetails\<close> holds
  for the identifier, or the new one that is made when there is none.
\<close>

definition place_of :: "'cb widget \<Rightarrow> string \<Rightarrow> place" where
  "place_of w pid = (case placeIdsToDetails w pid of Some p \<Rightarrow> p | None \<Rightarrow> new_place pid)"

text \<open>The result of the autocomplete for a place, when there is one.\<close>

definition autoCompleteResult_of :: "'cb widget \<Rightarrow> string \<Rightarrow> PlaceResult option" where
  "autoCompleteResult_of w pid =
     (case placeIdsToAutocompleteResults w of Some results \<Rightarrow> results pid | None \<Rightarrow> None)"

text \<open>
  The delay of the timeout that is set when the count of retries is \<open>k\<close>:
  \<open>(Math.pow(2, retryCount) + Math.random()) * 500\<close>, in the arithmetic of doubles.
\<close>

definition retry_delay :: "nat \<Rightarrow> jsnum \<Rightarrow> jsnum" where
  "retry_delay k random = js_mul (js_add (rd (2 ^ k)) random) (rd 500)"

text \<open>The widget with the count of retries of the function at position \<open>n\<close> set to \<open>k\<close>.\<close>

definition retried :: "nat \<Rightarrow> nat \<Rightarrow> 'cb widget \<Rightarrow> 'cb widget" where
  "retried n k w = w\<lparr>fetches := (fetches w)[n := (fetches w ! n)\<lparr>retryCount := k\<rparr>]\<rparr>"

text \<open>
  A function \<open>processResult\<close> is idle when it has no call in flight and no timeout: no
  event can run it. An event concerns the function at position \<open>n\<close> when it is an
  answer to its call or the firing of its timeout.
\<close>

definition idle :: "nat \<Rightarrow> 'cb widget \<Rightarrow> bool" where
  "idle n w \<longleftrightarrow> n < length (fetches w) \<and> n \<notin> inFlight w \<and> n \<notin> timers w"

definition concerns :: "nat \<Rightarrow> 'cb event \<Rightarrow> bool" where
  "concerns n e =
     (case e of Fetch pid fs cb \<Rightarrow> False | Response m r s j \<Rightarrow> m = n | TimerFired m \<Rightarrow> m = n)"

text \<open>The delays of the timeouts that the function at position \<open>n\<close> has set, in order.\<close>

definition timeouts_of :: "nat \<Rightarrow> 'cb effect list \<Rightarrow> jsnum list" where
  "timeouts_of n effects =
     concat (map (\<lambda>e. case e of SetTimeout m delay \<Rightarrow> if m = n then [delay] else [] | _ \<Rightarrow> [])
       effects)"

text \<open>
  Every place of the first widget is a place of the second, with all the fetched
  fields it had.
\<close>

definition fields_kept :: "'cb widget \<Rightarrow> 'cb widget \<Rightarrow> bool" where
  "fields_kept w w' \<longleftrightarrow>
     (\<forall>pid place. placeIdsToDetails w pid = Some place \<longrightarrow>
        (\<exists>place'. placeIdsToDetails w' pid = Some place'
           \<and> fetchedFields place \<subseteq> fetchedFields place'))"

text \<open>
  The calls in flight and the timeouts belong to functions that have been made, and
  no function has both a call in flight and a timeout.
\<close>

definition wellformed :: "'cb widget \<Rightarrow> bool" where
  "wellformed w \<longleftrightarrow>
     inFlight w \<inter> timers w = {}
     \<and> inFlight w \<subseteq> {..<length (fetches w)}
     \<and> timers w \<subseteq> {..<length (fetches w)}"

subsection \<open>Examples\<close>

text \<open>
  Built-ins for the examples: \<open>toUpperCase\<close> as it is on strings of ASCII characters.
  No result of the examples has a website, so \<open>hostname\<close> is never asked; it is given
  as the function that takes no string for a URL.
\<close>

definition example_builtins :: builtins where
  "example_builtins =
     \<lparr>toUpperCase =
        map (\<lambda>c. if c \<in> set ''abcdefghijklmnopqrstuvwxyz''
                  then char_of (of_char c - (32::nat)) else c),
      hostname = (\<lambda>s. None)\<rparr>"

text \<open>A result of the places service that has a name and nothing else.\<close>

definition name_result :: PlaceResult where
  "name_result =
     \<lparr>result_name = Some ''Clinic'', result_geometry = None,
      result_formatted_address = None, result_photos = None, result_types = None,
      result_url = None, result_website = None, result_formatted_phone_number = None,
      result_opening_hours = None, result_rating = None, result_user_ratings_total = None,
      result_price_level = None, result_reviews = None\<rparr>"

text \<open>The place \<open>p\<close> after that result has been assigned for the field \<open>name\<close>.\<close>

definition clinic :: place where
  "clinic = (new_place ''p'')\<lparr>name := Some ''Clinic'', fetchedFields := {''place_id'', ''name''}\<rparr>"

text \<open>A widget that holds this place and waits for nothing.\<close>

definition clinic_widget :: "string widget" where
  "clinic_widget =
     \<lparr>placeIdsToDetails = [''p'' \<mapsto> clinic], placeIdsToAutocompleteResults = None,
      fetches = [], inFlight = {}, timers = {}\<rparr>"

text \<open>
  The widget after \<open>fetchPlaceDetails('p', ['name'], cb)\<close> on a widget without places:
  the request is in flight.
\<close>

definition one_request :: "string widget" where
  "one_request =
     \<lparr>placeIdsToDetails = [''p'' \<mapsto> new_place ''p''],
      placeIdsToAutocompleteResults = None,
      fetches = [\<lparr>request = (''p'', [''name'']), retryCount = 0, callback = ''cb''\<rparr>],
      inFlight = {0}, timers = {}\<rparr>"

section \<open>Properties of the rounding\<close>

lemma bitlength_bounds:
  "0 < n \<Longrightarrow> 0 < bitlength n \<and> 2 ^ nat (bitlength n - 1) \<le> n \<and> n < 2 ^ nat (bitlength n)"
proof (induction n rule: bitlength.induct)
  case (1 n)
  from "1.prems" have b: "bitlength n = 1 + bitlength (n div 2)"
    by (subst bitlength.simps) simp
  show ?case
  proof (cases "n div 2 \<le> 0")
    case True
    with "1.prems" have "n = 1" by presburger
    then show ?thesis
      by (simp add: bitlength.simps[of 1] bitlength.simps[of 0])
  next
    case False
    then have pos: "0 < n div 2" by simp
    from "1.prems" have n0: "\<not> n \<le> 0" by simp
    from "1.IH"[OF n0 pos] have bp: "0 < bitlength (n div 2)"
      and lo: "2 ^ nat (bitlength (n div 2) - 1) \<le> n div 2"
      and hi: "n div 2 < 2 ^ nat (bitlength (n div 2))" by auto
    obtain m where m: "nat (bitlength (n div 2)) = Suc m"
      using bp by (cases "nat (bitlength (n div 2))") auto
    have bl: "bitlength (n div 2) = 1 + int m" using m bp by linarith
    have m1: "nat (bitlength (n div 2) - 1) = m" by (simp add: bl)
    have nb: "nat (bitlength n) = Suc (Suc m)" "nat (bitlength n - 1) = Suc m"
      by (simp_all add: b bl nat_add_distrib)
    from lo have "2 * 2 ^ m \<le> 2 * (n div 2)" by (simp add: m1)
    also have "\<dots> \<le> n" by presburger
    finally have l: "2 ^ nat (bitlength n - 1) \<le> n" by (simp add: nb)
    from hi have "n div 2 + 1 \<le> 2 ^ Suc m" by (simp add: m)
    then have "2 * (n div 2) + 2 \<le> 2 * 2 ^ Suc m" by simp
    moreover have "n < 2 * (n div 2) + 2" by presburger
    ultimately have "n < 2 ^ nat (bitlength n)" by (simp add: nb)
    with l bp show ?thesis by (simp add: b)
  qed
qed

lemma expo_bounds:
  assumes "0 < x"
  shows "2 powi (expo x) \<le> x \<and> x < 2 powi (expo x + 1)"
proof (cases "1 \<le> x")
  case True
  define n where "n = \<lfloor>x\<rfloor>"
  from True have n1: "0 < n" by (simp add: n_def)
  have nx: "of_int n \<le> x" "x < of_int n + 1"
    unfolding n_def using floor_correct[of x] by auto
  from bitlength_bounds[OF n1] obtain m where m: "bitlength n = int (Suc m)"
    by (metis nat_0_le less_imp_le not0_implies_Suc nat_eq_iff2 zero_less_nat_eq not_less_iff_gr_or_eq)
  have e: "expo x = int m" using True by (simp add: expo_def n_def[symmetric] m)
  have nm: "nat (bitlength n - 1) = m" "nat (bitlength n) = Suc m"
    by (simp_all add: m)
  have lo: "2 ^ m \<le> n" and hi: "n < 2 ^ Suc m"
    using bitlength_bounds[OF n1] unfolding nm by auto
  from lo have "(of_int (2 ^ m) :: rat) \<le> of_int n" by (simp only: of_int_le_iff)
  then have "(2::rat) ^ m \<le> of_int n" by simp
  then have "2 ^ m \<le> x" using nx(1) by (rule order_trans)
  then have l: "2 powi (expo x) \<le> x" by (simp add: e power_int_of_nat)
  from hi have "n + 1 \<le> 2 ^ Suc m" by simp
  then have "(of_int (n + 1) :: rat) \<le> of_int (2 ^ Suc m)" by (simp only: of_int_le_iff)
  then have "of_int n + 1 \<le> (2::rat) ^ Suc m" by simp
  with nx(2) have "x < 2 ^ Suc m" by (rule less_le_trans)
  moreover have "expo x + 1 = int (Suc m)" by (simp add: e)
  ultimately have "x < 2 powi (expo x + 1)"
    by (simp only: power_int_of_nat)
  with l show ?thesis by simp
next
  case False
  define y where "y = 1 / x"
  from False assms have y1: "1 < y" by (simp add: y_def)
  define n where "n = \<lceil>y\<rceil> - 1"
  from y1 have c2: "2 \<le> \<lceil>y\<rceil>" by (simp add: le_ceiling_iff)
  then have n1: "0 < n" by (simp add: n_def)
  have ny: "of_int n < y" "y \<le> of_int n + 1"
  proof -
    show "of_int n < y" unfolding n_def by (metis ceiling_correct of_int_1 of_int_diff)
    have "y \<le> of_int \<lceil>y\<rceil>" by simp
    also have "(of_int \<lceil>y\<rceil> :: rat) = of_int n + 1" by (simp add: n_def)
    finally show "y \<le> of_int n + 1" .
  qed
  from bitlength_bounds[OF n1] obtain m where m: "bitlength n = int (Suc m)"
    by (metis nat_0_le less_imp_le not0_implies_Suc nat_eq_iff2 zero_less_nat_eq not_less_iff_gr_or_eq)
  have e: "expo x = - int (Suc m)"
    using False by (simp add: expo_def y_def[symmetric] n_def[symmetric] m)
  have nm: "nat (bitlength n - 1) = m" "nat (bitlength n) = Suc m"
    by (simp_all add: m)
  have lo: "2 ^ m \<le> n" and hi: "n < 2 ^ Suc m"
    using bitlength_bounds[OF n1] unfolding nm by auto
  from hi have "n + 1 \<le> 2 ^ Suc m" by simp
  then have "(of_int (n + 1) :: rat) \<le> of_int (2 ^ Suc m)" by (simp only: of_int_le_iff)
  then have "of_int n + 1 \<le> (2::rat) ^ Suc m" by simp
  with ny(2) have yle: "y \<le> 2 ^ Suc m" by (rule order_trans)
  from lo have "(of_int (2 ^ m) :: rat) \<le> of_int n" by (simp only: of_int_le_iff)
  then have "(2::rat) ^ m \<le> of_int n" by simp
  then have ylt: "2 ^ m < y" using ny(1) by (rule le_less_trans)
  have xy: "x = 1 / y" using assms by (simp add: y_def)
  have pw: "(2::rat) powi (- int k) = 1 / 2 ^ k" for k
    by (simp add: power_int_minus power_int_of_nat field_simps)
  have "1 / 2 ^ Suc m \<le> x"
    unfolding xy using yle y1 by (intro divide_left_mono) simp_all
  then have l: "2 powi (expo x) \<le> x"
    unfolding e pw .
  have "x < 1 / 2 ^ m"
    unfolding xy using ylt y1 by (intro divide_strict_left_mono) (simp_all add: zero_less_mult_iff)
  moreover have "expo x + 1 = - int m" by (simp add: e)
  ultimately have "x < 2 powi (expo x + 1)"
    by (simp only: pw)
  with l show ?thesis by simp
qed

lemma expo_less:
  assumes "0 < x" and "x < 2 powi n"
  shows "expo x < n"
proof -
  from expo_bounds[OF assms(1)] assms(2) have "(2::rat) powi (expo x) < 2 powi n" by simp
  then show ?thesis
    by (metis linorder_not_less one_le_numeral power_int_increasing)
qed

lemma expo_ge:
  assumes "0 < x" and "2 powi n \<le> x"
  shows "n \<le> expo x"
proof -
  from expo_bounds[OF assms(1)] assms(2) have "(2::rat) powi n < 2 powi (expo x + 1)" by simp
  then have "n < expo x + 1"
    by (metis linorder_not_less one_le_numeral power_int_increasing)
  then show ?thesis by simp
qed

lemma round_half_even_bounds: "\<lfloor>x\<rfloor> \<le> round_half_even x \<and> round_half_even x \<le> \<lceil>x\<rceil>"
proof -
  have "x - of_int \<lfloor>x\<rfloor> \<noteq> 0 \<Longrightarrow> \<lceil>x\<rceil> = \<lfloor>x\<rfloor> + 1"
    by (metis ceiling_altdef eq_iff_diff_eq_0)
  moreover have "\<lfloor>x\<rfloor> \<le> \<lceil>x\<rceil>" by (simp add: floor_le_ceiling)
  ultimately show ?thesis
    by (auto simp add: round_half_even_def Let_def)
qed

lemma round_half_even_ge: "of_int n \<le> x \<Longrightarrow> n \<le> round_half_even x"
  using round_half_even_bounds[of x] by (meson le_floor_iff order_trans)

lemma round_half_even_le: "x \<le> of_int n \<Longrightarrow> round_half_even x \<le> n"
  using round_half_even_bounds[of x] by (meson ceiling_le_iff order_trans)

text \<open>Rounding keeps a number between the integers around it.\<close>

lemma rd_between_ints:
  assumes lo: "of_int lo \<le> x" and hi: "x \<le> of_int hi" and "1 \<le> lo" and "hi < 2 ^ 53"
  shows "\<exists>y. rd x = Fin y \<and> of_int lo \<le> y \<and> y \<le> of_int hi"
proof -
  from assms have x1: "1 \<le> x" by (meson of_int_1_le_iff order_trans)
  then have x0: "0 < x" by simp
  have hi53: "(of_int hi :: rat) < 2 ^ 53"
  proof -
    have "(of_int hi :: rat) < of_int (2 ^ 53)" using assms(4) by (simp only: of_int_less_iff)
    then show ?thesis by simp
  qed
  with hi have "x < 2 ^ 53" by (rule le_less_trans)
  then have "x < 2 powi 53" by simp
  from expo_less[OF x0 this] have e53: "expo x < 53" .
  have "(2::rat) powi 0 \<le> x" using x1 by simp
  from expo_ge[OF x0 this] have e0: "0 \<le> expo x" .
  define m where "m = nat (52 - expo x)"
  have q: "quantum x = 1 / 2 ^ m"
  proof -
    have "max (expo \<bar>x\<bar>) (- 1022) - 52 = - int m" using e0 e53 x0 by (simp add: m_def)
    then have "quantum x = 2 powi (- int m)" by (simp only: quantum_def)
    also have "\<dots> = 1 / 2 ^ m"
      by (simp add: power_int_minus power_int_of_nat field_simps)
    finally show ?thesis .
  qed
  define r where "r = round_half_even (x / quantum x)"
  have xq: "x / quantum x = x * 2 ^ m" by (simp add: q)
  have "of_int (lo * 2 ^ m) \<le> x / quantum x" using lo by (simp add: xq)
  then have rlo: "lo * 2 ^ m \<le> r" unfolding r_def by (rule round_half_even_ge)
  have "x / quantum x \<le> of_int (hi * 2 ^ m)" using hi by (simp add: xq)
  then have rhi: "r \<le> hi * 2 ^ m" unfolding r_def by (rule round_half_even_le)
  define y where "y = of_int r * quantum x"
  have ylo: "of_int lo \<le> y"
  proof -
    have "(of_int (lo * 2 ^ m) :: rat) \<le> of_int r" using rlo by (simp only: of_int_le_iff)
    then show ?thesis by (simp add: y_def q field_simps)
  qed
  have yhi: "y \<le> of_int hi"
  proof -
    have "(of_int r :: rat) \<le> of_int (hi * 2 ^ m)" using rhi by (simp only: of_int_le_iff)
    then show ?thesis by (simp add: y_def q field_simps)
  qed
  have "(1::rat) \<le> of_int lo" using assms(3) by simp
  with ylo have y0: "0 < y" by linarith
  from yhi hi53 have "y < 2 ^ 53" by (rule le_less_trans)
  then have "y < 2 powi 53" by simp
  from expo_less[OF y0 this] have "expo \<bar>y\<bar> < 1024" using y0 by simp
  then have "rd x = Fin y" by (simp add: rd_def Let_def y_def r_def)
  with ylo yhi show ?thesis by blast
qed

lemma rd_int: "1 \<le> n \<Longrightarrow> n < 2 ^ 53 \<Longrightarrow> rd (of_int n) = Fin (of_int n)"
  using rd_between_ints[of n "of_int n" n] by auto

section \<open>Properties of the star icons\<close>

lemma initArray_loop_replicate:
  "initArray_loop array arraySize = array @ replicate (nat \<lceil>arraySize\<rceil> - length array) 0"
proof (induction array arraySize rule: initArray_loop.induct)
  case (1 array arraySize)
  show ?case
  proof (cases "of_nat (length array) < arraySize")
    case True
    then have "int (length array) < \<lceil>arraySize\<rceil>"
      by (simp add: less_ceiling_iff)
    then have "nat \<lceil>arraySize\<rceil> - length array = Suc (nat \<lceil>arraySize\<rceil> - Suc (length array))"
      by linarith
    with True "1.IH" show ?thesis
      by (subst initArray_loop.simps) (simp add: replicate_app_Cons_same)
  next
    case False
    then have "\<lceil>arraySize\<rceil> \<le> int (length array)"
      by (simp add: ceiling_le_iff not_less)
    then have "nat \<lceil>arraySize\<rceil> - length array = 0"
      by linarith
    with False show ?thesis
      by (subst initArray_loop.simps) simp
  qed
qed

lemma initArray_of_int: "initArray (of_int n) = replicate (nat n) 0"
  by (simp add: initArray_def initArray_loop_replicate)

lemma length_initArray_of_int: "length (initArray (of_int n)) = nat n"
  by (simp add: initArray_of_int)

text \<open>
  C9. For an object with a rating \<open>r\<close>, \<open>0 < r \<le> 5\<close>, \<open>addStarIcons\<close> sets the three
  arrays of icons, their lengths add up to 5 and there is at most one half star. An
  object with no rating, or with the rating 0, is left as it is.
\<close>

theorem addStarIcons_five_stars:
  "(rating obj = Some r \<and> 0 < r \<and> r \<le> 5 \<longrightarrow>
      (\<exists>full half empty.
         fullStarIcons (addStarIcons obj) = Some full
         \<and> halfStarIcons (addStarIcons obj) = Some half
         \<and> emptyStarIcons (addStarIcons obj) = Some empty
         \<and> length full + length half + length empty = 5
         \<and> length half \<le> 1))
   \<and> (rating obj = None \<or> rating obj = Some 0 \<longrightarrow> addStarIcons obj = obj)"
proof (intro conjI impI)
  assume a: "rating obj = Some r \<and> 0 < r \<and> r \<le> 5"
  define s where "s = \<lfloor>2 * r + 1 / 2\<rfloor>"
  have s0: "0 \<le> s" using a by (simp add: s_def)
  have "2 * r + 1 / 2 < 11" using a by simp
  then have s10: "s \<le> 10" unfolding s_def by (simp add: floor_less_iff)
  have fl: "\<lfloor>(of_int s :: rat) / 2\<rfloor> = s div 2"
    using floor_divide_of_int_eq[of s 2, where ?'a = rat] by simp
  have half: "((of_int (s div 2) :: rat) * 2 = of_int s) = even s"
  proof -
    have "(of_int (s div 2) :: rat) * 2 = of_int s \<longleftrightarrow> (of_int (s div 2 * 2) :: rat) = of_int s"
      by simp
    also have "\<dots> \<longleftrightarrow> s div 2 * 2 = s" by (simp only: of_int_eq_iff)
    also have "\<dots> \<longleftrightarrow> even s" by presburger
    finally show ?thesis .
  qed
  have r0: "r \<noteq> 0" using a by simp
  have len: "nat (s div 2) + nat (if odd s then 1 else 0) + nat (5 - s div 2 - (if odd s then 1 else 0)) = 5"
  proof (cases "odd s")
    case True
    then have "s mod 2 = 1" by (simp add: odd_iff_mod_2_eq_one)
    with s0 s10 have "0 \<le> s div 2 \<and> s div 2 \<le> 4" by presburger
    then have "nat (s div 2) + nat 1 + nat (5 - s div 2 - 1) = 5" by linarith
    with True show ?thesis by simp
  next
    case False
    from s0 s10 have "0 \<le> s div 2 \<and> s div 2 \<le> 5" by presburger
    then have "nat (s div 2) + nat 0 + nat (5 - s div 2 - 0) = 5" by linarith
    with False show ?thesis by simp
  qed
  show "\<exists>full half empty.
         fullStarIcons (addStarIcons obj) = Some full
         \<and> halfStarIcons (addStarIcons obj) = Some half
         \<and> emptyStarIcons (addStarIcons obj) = Some empty
         \<and> length full + length half + length empty = 5
         \<and> length half \<le> 1"
    using a r0 len
    by (simp add: addStarIcons_def Let_def s_def[symmetric] fl half length_initArray_of_int
        del: of_int_diff)
next
  assume "rating obj = None \<or> rating obj = Some 0"
  then show "addStarIcons obj = obj"
    by (auto simp add: addStarIcons_def)
qed

theorem addStarIcons_five_stars_witness:
  "(\<exists>full half empty.
      fullStarIcons (addStarIcons \<lparr>rating = Some (47 / 10), fullStarIcons = None,
        halfStarIcons = None, emptyStarIcons = None\<rparr>) = Some full
      \<and> halfStarIcons (addStarIcons \<lparr>rating = Some (47 / 10), fullStarIcons = None,
        halfStarIcons = None, emptyStarIcons = None\<rparr>) = Some half
      \<and> emptyStarIcons (addStarIcons \<lparr>rating = Some (47 / 10), fullStarIcons = None,
        halfStarIcons = None, emptyStarIcons = None\<rparr>) = Some empty
      \<and> length full + length half + length empty = 5
      \<and> length half \<le> 1)
   \<and> addStarIcons \<lparr>rating = None, fullStarIcons = None, halfStarIcons = None,
        emptyStarIcons = None\<rparr>
     = \<lparr>rating = None, fullStarIcons = None, halfStarIcons = None, emptyStarIcons = None\<rparr>
   \<and> addStarIcons \<lparr>rating = Some 0, fullStarIcons = None, halfStarIcons = None,
        emptyStarIcons = None\<rparr>
     = \<lparr>rating = Some 0, fullStarIcons = None, halfStarIcons = None, emptyStarIcons = None\<rparr>"
  using
    addStarIcons_five_stars [of "\<lparr>rating = Some (47 / 10), fullStarIcons = None,
        halfStarIcons = None, emptyStarIcons = None\<rparr>" "47 / 10"]
    addStarIcons_five_stars [of "\<lparr>rating = None, fullStarIcons = None,
        halfStarIcons = None, emptyStarIcons = None\<rparr>" 0]
    addStarIcons_five_stars [of "\<lparr>rating = Some 0, fullStarIcons = None,
        halfStarIcons = None, emptyStarIcons = None\<rparr>" 0]
  by simp

section \<open>Properties of the opening hours\<close>

text \<open>
  C8. A week in Spanish, as the places service gives it for that language, open at
  the same hours from Monday to Friday: the five days become one element, but its
  label is \<open>lun - mi\<close> followed by the letter U+00E9, Monday to Wednesday, and not
  Monday to Friday. The label \<open>lun - mar\<close> is extended by replacing what \<open>\w+$\<close>
  matches; \<open>\w\<close> matches no letter outside ASCII, so once the label ends in the letter
  U+00E9 nothing is replaced any more. Saturday and Sunday are merged by appending,
  which does not depend on the letters.
\<close>

theorem parseDaysHours_spanish_week:
  "parseDaysHours
     [''lunes: 9-17'', ''martes: 9-17'', [CHR ''m'', CHR ''i'', CHR 0xE9] @ ''rcoles: 9-17'',
      ''jueves: 9-17'', ''viernes: 9-17'', [CHR ''s'', CHR 0xE1] @ ''bado: 9-14'',
      ''domingo: 9-14'']
   = [\<lparr>days = ''lun - '' @ [CHR ''m'', CHR ''i'', CHR 0xE9], hours = Some ''9-17''\<rparr>,
      \<lparr>days = [CHR ''s'', CHR 0xE1, CHR ''b''] @ '' - dom'', hours = Some ''9-14''\<rparr>]"
  by code_simp

text \<open>
  With the English names of the days every label ends in ASCII letters, and the same
  week is rendered as \<open>Mon - Fri\<close> and \<open>Sat - Sun\<close>.
\<close>

lemma parseDaysHours_english_week:
  "parseDaysHours
     [''Monday: 9-5'', ''Tuesday: 9-5'', ''Wednesday: 9-5'', ''Thursday: 9-5'', ''Friday: 9-5'',
      ''Saturday: Closed'', ''Sunday: Closed'']
   = [\<lparr>days = ''Mon - Fri'', hours = Some ''9-5''\<rparr>,
      \<lparr>days = ''Sat - Sun'', hours = Some ''Closed''\<rparr>]"
  by code_simp

section \<open>Properties of the BMI calculator\<close>

text \<open>The doubles that the decimal literals of \<open>calculateBMI\<close> denote.\<close>

lemma rd_0: "rd 0 = Fin 0"
  by code_simp

lemma rd_100: "rd 100 = Fin 100"
  by code_simp

lemma rd_25: "rd 25 = Fin 25"
  by code_simp

lemma rd_18_5: "rd (37 / 2) = Fin (37 / 2)"
  by code_simp

lemma rd_24_9: "rd (249 / 10) = Fin (3504363460047667 / 140737488355328)"
  by code_simp

lemma rd_29_9: "rd (299 / 10) = Fin (4208050901824307 / 140737488355328)"
  by code_simp

lemma parseFloat_180: "parseFloat ''180'' = Fin 180"
  by code_simp

lemma parseFloat_72_9: "parseFloat ''72.9'' = Fin (2564940725275853 / 35184372088832)"
  by code_simp

lemma bmi_of_180_72_9:
  "bmi_of (Fin 180) (Fin (2564940725275853 / 35184372088832)) = Fin (45 / 2)"
  by code_simp

lemma toFixed_22_5: "toFixed numberToString (Fin (45 / 2)) 2 = ''22.50''"
  by code_simp

lemma bmi_category_22_5:
  "bmi_category ''male'' (Fin (45 / 2)) = Some ''Normal weight''"
  "bmi_category ''female'' (Fin (45 / 2)) = Some ''Normal weight''"
  by code_simp+

text \<open>
  C6. For the height 180 and the weight 72.9 the BMI that is computed is the double
  22.5 exactly (the three roundings cancel), the result element is given the text
  \<open>Your BMI is: 22.50\<close> and the category element \<open>BMI Category: Normal weight\<close>, for the
  gender \<open>male\<close> and for the gender \<open>female\<close>.
\<close>

theorem calculateBMI_180_72_9:
  assumes "gender_value p = ''male'' \<or> gender_value p = ''female''"
    and "height_value p = ''180''" and "weight_value p = ''72.9''"
  shows "bmi_of (parseFloat (height_value p)) (parseFloat (weight_value p)) = Fin (45 / 2)
    \<and> calculateBMI numberToString p =
        p\<lparr>defaultPrevented := True,
          result_innerHTML := ''Your BMI is: 22.50'',
          result_category_innerHTML := ''BMI Category: Normal weight''\<rparr>"
  using assms
  by (auto simp add: calculateBMI_def Let_def parseFloat_180 parseFloat_72_9 bmi_of_180_72_9
      toFixed_22_5 bmi_category_22_5 isNaN_def rd_0 string_of_def)

theorem calculateBMI_180_72_9_witness:
  "calculateBMI (\<lambda>x. [])
     \<lparr>age_value = ''30'', gender_value = ''male'', height_value = ''180'',
      weight_value = ''72.9'', result_innerHTML = [], result_category_innerHTML = [],
      alerts = [], defaultPrevented = False\<rparr>
   = \<lparr>age_value = ''30'', gender_value = ''male'', height_value = ''180'',
      weight_value = ''72.9'', result_innerHTML = ''Your BMI is: 22.50'',
      result_category_innerHTML = ''BMI Category: Normal weight'',
      alerts = [], defaultPrevented = True\<rparr>
   \<and> calculateBMI (\<lambda>x. [])
     \<lparr>age_value = ''30'', gender_value = ''female'', height_value = ''180'',
      weight_value = ''72.9'', result_innerHTML = [], result_category_innerHTML = [],
      alerts = [], defaultPrevented = False\<rparr>
   = \<lparr>age_value = ''30'', gender_value = ''female'', height_value = ''180'',
      weight_value = ''72.9'', result_innerHTML = ''Your BMI is: 22.50'',
      result_category_innerHTML = ''BMI Category: Normal weight'',
      alerts = [], defaultPrevented = True\<rparr>"
  using
    calculateBMI_180_72_9 [of "\<lparr>age_value = ''30'', gender_value = ''male'',
      height_value = ''180'', weight_value = ''72.9'', result_innerHTML = [],
      result_category_innerHTML = [], alerts = [], defaultPrevented = False\<rparr>" "\<lambda>x. []"]
    calculateBMI_180_72_9 [of "\<lparr>age_value = ''30'', gender_value = ''female'',
      height_value = ''180'', weight_value = ''72.9'', result_innerHTML = [],
      result_category_innerHTML = [], alerts = [], defaultPrevented = False\<rparr>" "\<lambda>x. []"]
  by simp




lemma bmi_category_gap:
  assumes "g = ''male'' \<or> g = ''female''"
    and "js_ge bmi (rd (249 / 10))" and "js_lt bmi (rd 25)"
  shows "bmi_category g bmi = Some ''Obese''"
  using assms
  by (cases bmi) (auto simp add: bmi_category_def js_ge_def rd_25 rd_18_5 rd_24_9 rd_29_9)

text \<open>
  C10. For an input that passes the check, with the gender \<open>male\<close> or \<open>female\<close>, and a
  computed BMI with \<open>bmi >= 24.9\<close> and \<open>bmi < 25\<close> as the program compares them, the
  category that is written is \<open>Obese\<close>: the value is neither below the upper bound of
  \<open>Normal weight\<close> nor at or above the lower bound of \<open>Overweight\<close>. (The double that
  \<open>24.9\<close> denotes lies below 24.9, so every BMI from 24.9 on is covered.)
\<close>

theorem calculateBMI_gap_obese:
  assumes "gender_value p = ''male'' \<or> gender_value p = ''female''"
    and "parseFloat (height_value p) \<noteq> NaN" and "parseFloat (weight_value p) \<noteq> NaN"
    and "\<not> js_le (parseFloat (height_value p)) (Fin 0)"
    and "\<not> js_le (parseFloat (weight_value p)) (Fin 0)"
    and "js_ge (bmi_of (parseFloat (height_value p)) (parseFloat (weight_value p)))
           (rd (249 / 10))"
    and "js_lt (bmi_of (parseFloat (height_value p)) (parseFloat (weight_value p))) (rd 25)"
  shows "result_category_innerHTML (calculateBMI numberToString p) = ''BMI Category: Obese''"
  using assms bmi_category_gap [OF assms(1) assms(6) assms(7)]
  by (simp add: calculateBMI_def Let_def isNaN_def rd_0 string_of_def)

theorem calculateBMI_gap_obese_witness:
  "bmi_of (parseFloat ''200'') (parseFloat ''99.8'')
     = Fin (7022800668930867 / 281474976710656)
   \<and> calculateBMI (\<lambda>x. [])
     \<lparr>age_value = ''30'', gender_value = ''female'', height_value = ''200'',
      weight_value = ''99.8'', result_innerHTML = [], result_category_innerHTML = [],
      alerts = [], defaultPrevented = False\<rparr>
   = \<lparr>age_value = ''30'', gender_value = ''female'', height_value = ''200'',
      weight_value = ''99.8'', result_innerHTML = ''Your BMI is: 24.95'',
      result_category_innerHTML = ''BMI Category: Obese'',
      alerts = [], defaultPrevented = True\<rparr>"
proof -
  let ?p = "\<lparr>age_value = ''30'', gender_value = ''female'', height_value = ''200'',
      weight_value = ''99.8'', result_innerHTML = [], result_category_innerHTML = [],
      alerts = [], defaultPrevented = False\<rparr>"
  have h: "parseFloat ''200'' = Fin 200"
    by code_simp
  have w: "parseFloat ''99.8'' = Fin (7022800668930867 / 70368744177664)"
    by code_simp
  have b: "bmi_of (Fin 200) (Fin (7022800668930867 / 70368744177664))
      = Fin (7022800668930867 / 281474976710656)"
    by code_simp
  have f: "toFixed (\<lambda>x. []) (Fin (7022800668930867 / 281474976710656)) 2 = ''24.95''"
    by code_simp
  have c: "result_category_innerHTML (calculateBMI (\<lambda>x. []) ?p) = ''BMI Category: Obese''"
    using calculateBMI_gap_obese [of ?p "\<lambda>x. []"]
    by (simp add: h w b rd_24_9 rd_25 js_ge_def)
  have "calculateBMI (\<lambda>x. []) ?p
      = ?p\<lparr>defaultPrevented := True, result_innerHTML := ''Your BMI is: 24.95'',
           result_category_innerHTML := result_category_innerHTML (calculateBMI (\<lambda>x. []) ?p)\<rparr>"
    by (simp add: calculateBMI_def Let_def h w b f isNaN_def rd_0)
  with c show ?thesis
    by (simp add: h w b)
qed

section \<open>Properties of the place details\<close>

subsection \<open>What a call of fetchPlaceDetails does\<close>

lemma processResult_OK_effects:
  "e \<in> set (snd (processResult b n result OK random w))
     \<Longrightarrow> (\<exists>cb place. e = Callback cb place) \<or> e = Uncaught TypeError"
  by (auto simp add: processResult_def Let_def split: option.splits prod.splits completion.splits)

lemma processResult_failure:
  assumes "status \<noteq> OK" and "status \<noteq> OVER_QUERY_LIMIT"
  shows "processResult b n result status random w = (w, [])"
  using assms by (simp add: processResult_def Let_def)

lemma fetchPlaceDetails_Some:
  assumes "pid \<noteq> []"
    and "missing = filter (\<lambda>field. field \<notin> fetchedFields (place_of w pid)) fs"
    and "w1 = w\<lparr>placeIdsToDetails := (placeIdsToDetails w)(pid \<mapsto> place_of w pid)\<rparr>"
    and "w2 = w1\<lparr>fetches := fetches w
           @ [\<lparr>request = (pid, missing), retryCount = 0, callback = cb\<rparr>]\<rparr>"
  shows "fetchPlaceDetails b pid (Some fs) cb w =
     (if missing = [] then (w1, [Callback cb (place_of w pid)])
      else case autoCompleteResult_of w pid of
             Some result \<Rightarrow> processResult b (length (fetches w)) (Some result) OK NaN w2
           | None \<Rightarrow> (w2\<lparr>inFlight := insert (length (fetches w)) (inFlight w)\<rparr>,
                       [GetDetails (length (fetches w)) (pid, missing)]))"
  using assms(1)
  by (simp add: fetchPlaceDetails_def Let_def place_of_def autoCompleteResult_of_def assms(2,3,4)
      split: option.splits)

lemma place_of_clinic_widget: "place_of clinic_widget ''p'' = clinic"
  by (simp add: place_of_def clinic_widget_def)

lemma fetchedFields_clinic: "fetchedFields clinic = {''place_id'', ''name''}"
  by (simp add: clinic_def)

text \<open>
  C2. A call of \<open>fetchPlaceDetails\<close> with a place identifier and a list of fields that
  are all among the fetched fields of the place calls the callback with the place at
  once, and does nothing else: no request is sent, no function \<open>processResult\<close> is made
  and no timeout is set. The place is the one the widget holds for the identifier;
  when the widget holds it already, the widget is left as it is. (The list of fields
  may also be empty.)
\<close>

theorem fetchPlaceDetails_all_fetched:
  assumes "pid \<noteq> []"
    and "set fs \<subseteq> fetchedFields (place_of w pid)"
  shows "fetchPlaceDetails b pid (Some fs) cb w
           = (w\<lparr>placeIdsToDetails := (placeIdsToDetails w)(pid \<mapsto> place_of w pid)\<rparr>,
              [Callback cb (place_of w pid)])
         \<and> (placeIdsToDetails w pid = Some place \<longrightarrow>
              fetchPlaceDetails b pid (Some fs) cb w = (w, [Callback cb place]))"
proof -
  have none: "filter (\<lambda>field. field \<notin> fetchedFields (place_of w pid)) fs = []"
    using assms(2) by (auto simp add: filter_empty_conv)
  have first: "fetchPlaceDetails b pid (Some fs) cb w
      = (w\<lparr>placeIdsToDetails := (placeIdsToDetails w)(pid \<mapsto> place_of w pid)\<rparr>,
         [Callback cb (place_of w pid)])"
    using fetchPlaceDetails_Some[OF assms(1) refl refl refl, of b fs cb w] none by simp
  have "placeIdsToDetails w pid = Some place \<Longrightarrow>
      place_of w pid = place
      \<and> w\<lparr>placeIdsToDetails := (placeIdsToDetails w)(pid \<mapsto> place)\<rparr> = w"
    by (simp add: map_upd_triv place_of_def)
  with first show ?thesis by auto
qed

theorem fetchPlaceDetails_all_fetched_witness:
  "fetchPlaceDetails example_builtins ''p'' (Some [''name'']) ''cb'' clinic_widget
     = (clinic_widget, [Callback ''cb'' clinic])"
  using fetchPlaceDetails_all_fetched[of "''p''" "[''name'']" clinic_widget example_builtins
      "''cb''" clinic]
  by (simp add: place_of_clinic_widget fetchedFields_clinic) (simp add: clinic_widget_def)



subsection \<open>Functions that wait for nothing\<close>

text \<open>
  A function \<open>processResult\<close> with no call in flight and no timeout stays so: no step
  gives it a call or a timeout, so no event ever concerns it again.
\<close>

lemma processResult_idle:
  assumes "idle n w" and "m \<noteq> n" and "m < length (fetches w)"
    and "processResult b m result status random w = (w', effects)"
  shows "idle n w'"
  using assms
  by (auto simp add: processResult_def Let_def idle_def
      split: if_splits option.splits prod.splits completion.splits)

lemma fetchPlaceDetails_idle:
  assumes "idle n w" and "fetchPlaceDetails b pid fs' cb w = (w', effects)"
  shows "idle n w'"
proof (cases "pid = [] \<or> fs' = None")
  case True
  with assms show ?thesis by (auto simp add: fetchPlaceDetails_def)
next
  case False
  then obtain fs where fs: "fs' = Some fs" and pid: "pid \<noteq> []" by auto
  define missing where "missing = filter (\<lambda>field. field \<notin> fetchedFields (place_of w pid)) fs"
  define w1 where "w1 = w\<lparr>placeIdsToDetails := (placeIdsToDetails w)(pid \<mapsto> place_of w pid)\<rparr>"
  define w2 where "w2 = w1\<lparr>fetches := fetches w
      @ [\<lparr>request = (pid, missing), retryCount = 0, callback = cb\<rparr>]\<rparr>"
  note unfold = fetchPlaceDetails_Some[OF pid missing_def w1_def w2_def, of b]
  have i1: "idle n w1" using assms(1) by (simp add: idle_def w1_def)
  have i2: "idle n w2" using assms(1) by (simp add: idle_def w2_def w1_def)
  have n2: "length (fetches w) \<noteq> n" "length (fetches w) < length (fetches w2)"
    using assms(1) by (simp_all add: idle_def w2_def w1_def)
  show ?thesis
  proof (cases "missing = []")
    case True
    with assms(2) i1 show ?thesis by (simp add: fs unfold)
  next
    case ne: False
    show ?thesis
    proof (cases "autoCompleteResult_of w pid")
      case None
      with ne assms(2) have "w' = w2\<lparr>inFlight := insert (length (fetches w)) (inFlight w)\<rparr>"
        by (simp add: fs unfold)
      with i2 n2 assms(1) show ?thesis by (simp add: idle_def w2_def w1_def)
    next
      case (Some result)
      with ne assms(2)
      have "processResult b (length (fetches w)) (Some result) OK NaN w2 = (w', effects)"
        by (simp add: fs unfold)
      from processResult_idle[OF i2 n2 this] show ?thesis .
    qed
  qed
qed

lemma step_idle:
  assumes "idle n w" and "step b e w = Some (w', effects)"
  shows "\<not> concerns n e \<and> idle n w'"
proof (cases e)
  case (Fetch pid fs cb)
  with assms fetchPlaceDetails_idle[of n w b pid fs cb w' effects] show ?thesis
    by (simp add: concerns_def)
next
  case (Response m result status random)
  with assms have m: "m \<in> inFlight w" "m < length (fetches w)"
    and p: "processResult b m result status random (w\<lparr>inFlight := inFlight w - {m}\<rparr>)
      = (w', effects)"
    by (auto split: if_splits)
  from m assms(1) have mn: "m \<noteq> n" by (auto simp add: idle_def)
  have "idle n (w\<lparr>inFlight := inFlight w - {m}\<rparr>)"
    using assms(1) by (auto simp add: idle_def)
  from processResult_idle[OF this mn _ p] m mn Response show ?thesis
    by (simp add: concerns_def)
next
  case (TimerFired m)
  with assms have m: "m \<in> timers w" "m < length (fetches w)"
    and p: "timer_fired m w = (w', effects)"
    by (auto split: if_splits)
  from m assms(1) have mn: "m \<noteq> n" by (auto simp add: idle_def)
  with p assms(1) TimerFired show ?thesis
    by (auto simp add: timer_fired_def idle_def concerns_def)
qed

lemma run_idle:
  assumes "idle n w" and "run b es w = Some (w', effects)"
  shows "(\<forall>e \<in> set es. \<not> concerns n e) \<and> idle n w'"
  using assms
proof (induction es arbitrary: w effects)
  case Nil
  then show ?case by simp
next
  case (Cons e es)
  from Cons.prems(2) obtain w1 eff1 eff2 where
    s: "step b e w = Some (w1, eff1)" and r: "run b es w1 = Some (w', eff2)"
    by (auto split: option.splits prod.splits)
  from step_idle[OF Cons.prems(1) s] have c: "\<not> concerns n e" and i: "idle n w1" by auto
  from Cons.IH[OF i r] c show ?case by simp
qed

text \<open>
  Every state that the widget reaches is well formed. So a function with a call in
  flight has no timeout, which the statements below assume.
\<close>

lemma wellformed_initializePlaceDetails: "wellformed (initializePlaceDetails places)"
  by (simp add: wellformed_def initializePlaceDetails_def)

lemma wellformed_in_flight:
  assumes "wellformed w" and "n \<in> inFlight w"
  shows "n \<notin> timers w \<and> n < length (fetches w)"
  using assms by (auto simp add: wellformed_def)

lemma processResult_wellformed:
  assumes "processResult b n result status random w = (w', effects)"
    and "wellformed w" and "n \<notin> inFlight w" and "n < length (fetches w)"
  shows "wellformed w'"
  using assms
  by (auto simp add: processResult_def Let_def wellformed_def
      split: if_splits option.splits prod.splits completion.splits)

lemma fetchPlaceDetails_wellformed:
  assumes "fetchPlaceDetails b pid fs' cb w = (w', effects)" and "wellformed w"
  shows "wellformed w'"
proof (cases "pid = [] \<or> fs' = None")
  case True
  with assms show ?thesis by (auto simp add: fetchPlaceDetails_def)
next
  case False
  then obtain fs where fs: "fs' = Some fs" and pid: "pid \<noteq> []" by auto
  define missing where "missing = filter (\<lambda>field. field \<notin> fetchedFields (place_of w pid)) fs"
  define w1 where "w1 = w\<lparr>placeIdsToDetails := (placeIdsToDetails w)(pid \<mapsto> place_of w pid)\<rparr>"
  define w2 where "w2 = w1\<lparr>fetches := fetches w
      @ [\<lparr>request = (pid, missing), retryCount = 0, callback = cb\<rparr>]\<rparr>"
  note unfold = fetchPlaceDetails_Some[OF pid missing_def w1_def w2_def, of b]
  have w2: "wellformed w2" "length (fetches w) \<notin> inFlight w2"
    "length (fetches w) < length (fetches w2)" "length (fetches w) \<notin> timers w2"
    using assms(2) by (auto simp add: w2_def w1_def wellformed_def)
  show ?thesis
  proof (cases "missing = []")
    case True
    with assms show ?thesis by (auto simp add: fs unfold w1_def wellformed_def)
  next
    case ne: False
    show ?thesis
    proof (cases "autoCompleteResult_of w pid")
      case None
      with ne assms have "w' = w2\<lparr>inFlight := insert (length (fetches w)) (inFlight w)\<rparr>"
        by (auto simp add: fs unfold)
      with w2 show ?thesis by (auto simp add: wellformed_def w2_def w1_def)
    next
      case (Some result)
      with ne assms have "processResult b (length (fetches w)) (Some result) OK NaN w2 = (w', effects)"
        by (simp add: fs unfold)
      from processResult_wellformed[OF this w2(1,2,3)] show ?thesis .
    qed
  qed
qed

lemma step_wellformed:
  assumes "step b e w = Some (w', effects)" and "wellformed w"
  shows "wellformed w'"
proof (cases e)
  case (Fetch pid fs' cb)
  with assms fetchPlaceDetails_wellformed[of b pid fs' cb w w' effects] show ?thesis by simp
next
  case (Response n result status random)
  with assms have p: "processResult b n result status random (w\<lparr>inFlight := inFlight w - {n}\<rparr>)
      = (w', effects)" and n: "n < length (fetches w)"
    by (simp_all split: if_splits)
  have "wellformed (w\<lparr>inFlight := inFlight w - {n}\<rparr>)"
    using assms(2) by (auto simp add: wellformed_def)
  from processResult_wellformed[OF p this] n show ?thesis by simp
next
  case (TimerFired n)
  with assms show ?thesis by (auto simp add: timer_fired_def wellformed_def split: if_splits)
qed

lemma run_wellformed:
  assumes "run b es w = Some (w', effects)" and "wellformed w"
  shows "wellformed w'"
  using assms
proof (induction es arbitrary: w effects)
  case Nil
  then show ?case by simp
next
  case (Cons e es)
  from Cons.prems(1) obtain w1 effects1 effects2 where
    s: "step b e w = Some (w1, effects1)" and r: "run b es w1 = Some (w', effects2)"
    by (auto split: option.splits prod.splits)
  from Cons.IH[OF r step_wellformed[OF s Cons.prems(2)]] show ?case .
qed

text \<open>Events that do not concern a function \<open>processResult\<close> leave it as it is.\<close>

lemma processResult_other_fetch:
  assumes "m \<noteq> n"
    and "processResult b m result status random w = (w', effects)"
  shows "fetches w' ! n = fetches w ! n \<and> length (fetches w') = length (fetches w)"
  using assms
  by (auto simp add: processResult_def Let_def
      split: if_splits option.splits prod.splits completion.splits)

lemma step_other_fetch:
  assumes "\<not> concerns n e" and "n < length (fetches w)"
    and "step b e w = Some (w', effects)"
  shows "fetches w' ! n = fetches w ! n \<and> n < length (fetches w')"
proof (cases e)
  case (Fetch pid fs' cb)
  show ?thesis
  proof (cases "pid = [] \<or> fs' = None")
    case True
    with assms Fetch show ?thesis by (auto simp add: fetchPlaceDetails_def)
  next
    case False
    then obtain fs where fs: "fs' = Some fs" and pid: "pid \<noteq> []" by auto
    define missing where "missing = filter (\<lambda>field. field \<notin> fetchedFields (place_of w pid)) fs"
    define w1 where "w1 = w\<lparr>placeIdsToDetails := (placeIdsToDetails w)(pid \<mapsto> place_of w pid)\<rparr>"
    define w2 where "w2 = w1\<lparr>fetches := fetches w
        @ [\<lparr>request = (pid, missing), retryCount = 0, callback = cb\<rparr>]\<rparr>"
    note unfold = fetchPlaceDetails_Some[OF pid missing_def w1_def w2_def, of b]
    have f2: "fetches w2 ! n = fetches w ! n" "n < length (fetches w2)" "length (fetches w) \<noteq> n"
      using assms(2) by (simp_all add: w2_def w1_def nth_append)
    from assms(3) Fetch fs have r: "fetchPlaceDetails b pid (Some fs) cb w = (w', effects)"
      by simp
    show ?thesis
    proof (cases "missing = []")
      case True
      with r assms(2) show ?thesis by (auto simp add: unfold w1_def)
    next
      case ne: False
      show ?thesis
      proof (cases "autoCompleteResult_of w pid")
        case None
        with ne r f2 show ?thesis by (auto simp add: unfold)
      next
        case (Some result)
        with ne r
        have "processResult b (length (fetches w)) (Some result) OK NaN w2 = (w', effects)"
          by (simp add: unfold)
        from processResult_other_fetch[OF f2(3) this] f2 show ?thesis by simp
      qed
    qed
  qed
next
  case (Response m result status random)
  with assms have mn: "m \<noteq> n"
    and p: "processResult b m result status random (w\<lparr>inFlight := inFlight w - {m}\<rparr>)
      = (w', effects)"
    by (auto simp add: concerns_def split: if_splits)
  from processResult_other_fetch[OF mn p] assms(2) show ?thesis by simp
next
  case (TimerFired m)
  with assms show ?thesis
    by (auto simp add: timer_fired_def split: if_splits)
qed

subsection \<open>Failures other than the rate limit\<close>

text \<open>
  C5. The service answers a call in flight with a status that is neither \<open>OK\<close> nor
  \<open>OVER_QUERY_LIMIT\<close>: \<open>processResult\<close> changes nothing and does nothing to the outside,
  so no callback is called, no timeout is set, no request is sent and no error is
  thrown. After that step the function waits for nothing, and in every sequence of
  events that follows none concerns it: the call is never taken up again.
\<close>

theorem other_failure_dropped:
  assumes "status \<noteq> OK" and "status \<noteq> OVER_QUERY_LIMIT"
    and "n \<in> inFlight w" and "n \<notin> timers w" and "n < length (fetches w)"
  shows "processResult b n result status random w = (w, [])
    \<and> step b (Response n result status random) w = Some (w\<lparr>inFlight := inFlight w - {n}\<rparr>, [])
    \<and> (\<forall>es w' effects.
          run b es (w\<lparr>inFlight := inFlight w - {n}\<rparr>) = Some (w', effects)
          \<longrightarrow> (\<forall>e \<in> set es. \<not> concerns n e))"
proof (intro conjI allI impI)
  show "processResult b n result status random w = (w, [])"
    using assms(1,2) by (rule processResult_failure)
  show "step b (Response n result status random) w = Some (w\<lparr>inFlight := inFlight w - {n}\<rparr>, [])"
    using assms(3,5) processResult_failure[OF assms(1,2)] by simp
next
  fix es w' effects
  assume r: "run b es (w\<lparr>inFlight := inFlight w - {n}\<rparr>) = Some (w', effects)"
  have "idle n (w\<lparr>inFlight := inFlight w - {n}\<rparr>)"
    using assms(4,5) by (simp add: idle_def)
  from run_idle[OF this r] show "\<forall>e \<in> set es. \<not> concerns n e" by blast
qed

theorem other_failure_dropped_witness:
  "processResult example_builtins 0 None ZERO_RESULTS NaN one_request = (one_request, [])
   \<and> step example_builtins (Response 0 None ZERO_RESULTS NaN) one_request
       = Some (one_request\<lparr>inFlight := {}\<rparr>, [])"
  using other_failure_dropped[of ZERO_RESULTS 0 one_request example_builtins None NaN]
  by (simp add: one_request_def)

subsection \<open>The rate limit\<close>

text \<open>
  The delay of the retry with count \<open>k\<close>, for a jitter \<open>j\<close> with \<open>0 \<le> j < 1\<close>, in the
  arithmetic of doubles: it lies between \<open>500 * 2 ^ k\<close> and \<open>500 * 2 ^ k + 500\<close>, and is
  not less than the delay before it.
\<close>

lemma retry_delay_bounds:
  assumes "k < 5" and "0 \<le> j" and "j < 1"
  shows "\<exists>d. retry_delay k (Fin j) = Fin d \<and> 500 * 2 ^ k \<le> d \<and> d \<le> 500 * 2 ^ k + 500"
proof -
  have k16: "(2::int) ^ k \<le> 16"
    using power_increasing[of k 4 "2::int"] assms(1) by simp
  have p1: "(1::int) \<le> 2 ^ k" by simp
  have of2: "(of_int (2 ^ k) :: rat) = 2 ^ k" by simp
  have "rd (of_int (2 ^ k)) = Fin (of_int (2 ^ k))"
    using k16 p1 by (intro rd_int) simp_all
  then have r2: "rd (2 ^ k) = Fin (2 ^ k)" by (simp only: of2)
  have "rd (of_int 500) = Fin (of_int 500)" by (intro rd_int) simp_all
  then have r500: "rd 500 = Fin 500" by simp
  have "\<exists>a. rd (2 ^ k + j) = Fin a \<and> of_int (2 ^ k) \<le> a \<and> a \<le> of_int (2 ^ k + 1)"
    using assms(2,3) k16 p1 by (intro rd_between_ints) simp_all
  then obtain a where a: "rd (2 ^ k + j) = Fin a" "2 ^ k \<le> a" "a \<le> 2 ^ k + 1"
    by auto
  have p500: "(1::int) \<le> 500 * 2 ^ k" using p1 by linarith
  have "\<exists>d. rd (a * 500) = Fin d \<and> of_int (500 * 2 ^ k) \<le> d \<and> d \<le> of_int (500 * 2 ^ k + 500)"
    using a(2,3) k16 p500 by (intro rd_between_ints) simp_all
  then obtain d where d: "rd (a * 500) = Fin d" "500 * 2 ^ k \<le> d" "d \<le> 500 * 2 ^ k + 500"
    by auto
  have "retry_delay k (Fin j) = Fin d"
    by (simp add: retry_delay_def r2 r500 a(1) d(1))
  with d show ?thesis by blast
qed

lemma retry_delay_nondecreasing:
  assumes "k < 4" and "0 \<le> j" and "j < 1" and "0 \<le> j'" and "j' < 1"
  shows "js_le (retry_delay k (Fin j)) (retry_delay (Suc k) (Fin j'))"
proof -
  from retry_delay_bounds[of k j] assms obtain d where
    d: "retry_delay k (Fin j) = Fin d" "d \<le> 500 * 2 ^ k + 500" by auto
  from retry_delay_bounds[of "Suc k" j'] assms obtain d' where
    d': "retry_delay (Suc k) (Fin j') = Fin d'" "500 * 2 ^ Suc k \<le> d'" by auto
  have "(1::rat) \<le> 2 ^ k" by simp
  then have "500 * 2 ^ k + 500 \<le> (500::rat) * 2 ^ Suc k" by simp
  with d(2) d'(2) have "d \<le> d'" by linarith
  then show ?thesis by (simp add: d(1) d'(1))
qed

text \<open>What a rate-limited answer does, by the count of retries.\<close>

lemma processResult_over_limit:
  assumes "retryCount (fetches w ! n) < 5"
  shows "processResult b n result OVER_QUERY_LIMIT random w =
     (w\<lparr>fetches := (fetches w)[n := (fetches w ! n)\<lparr>retryCount := retryCount (fetches w ! n) + 1\<rparr>],
        timers := insert n (timers w)\<rparr>,
      [SetTimeout n (retry_delay (retryCount (fetches w ! n)) random)])"
  using assms by (simp add: processResult_def Let_def retry_delay_def)

lemma processResult_over_limit_last:
  assumes "\<not> retryCount (fetches w ! n) < 5"
  shows "processResult b n result OVER_QUERY_LIMIT random w = (w, [])"
  using assms by (simp add: processResult_def Let_def)

lemma retried_same:
  "n < length (fetches w) \<Longrightarrow> retried n (retryCount (fetches w ! n)) w = w"
  by (simp add: retried_def)

lemma run_append:
  "run b (es @ es') w =
     (case run b es w of
        None \<Rightarrow> None
      | Some (w', effects) \<Rightarrow>
          (case run b es' w' of
             None \<Rightarrow> None
           | Some (w'', effects') \<Rightarrow> Some (w'', effects @ effects')))"
  by (induction es arbitrary: w) (auto split: option.splits)

lemma run_round:
  assumes "n \<in> inFlight w" and "n \<notin> timers w" and "n < length (fetches w)"
    and "retryCount (fetches w ! n) = k" and "k < 5"
  shows "run b [Response n result OVER_QUERY_LIMIT random, TimerFired n] w =
     Some (retried n (Suc k) w,
           [SetTimeout n (retry_delay k random), GetDetails n (request (fetches w ! n))])"
proof -
  let ?w0 = "w\<lparr>inFlight := inFlight w - {n}\<rparr>"
  let ?w1 = "?w0\<lparr>fetches := (fetches w)[n := (fetches w ! n)\<lparr>retryCount := Suc k\<rparr>],
              timers := insert n (timers w)\<rparr>"
  have k: "retryCount (fetches ?w0 ! n) < 5" using assms(4,5) by simp
  have s1: "step b (Response n result OVER_QUERY_LIMIT random) w =
      Some (?w1, [SetTimeout n (retry_delay k random)])"
    using assms(1,3,4) processResult_over_limit[OF k, of b result random] by simp
  have eq: "?w1\<lparr>timers := timers ?w1 - {n}, inFlight := insert n (inFlight ?w1)\<rparr>
      = retried n (Suc k) w"
    using assms(1,2) by (simp add: retried_def insert_absorb)
  have s2: "step b (TimerFired n) ?w1 =
      Some (retried n (Suc k) w, [GetDetails n (request (fetches w ! n))])"
    using assms(3) eq by (simp add: timer_fired_def)
  show ?thesis
    unfolding run.simps s1 option.case prod.case s2 by simp
qed

lemma retried_retried: "retried n k' (retried n k w) = retried n k' w"
  by (cases "n < length (fetches w)") (simp_all add: retried_def list_update_beyond not_less)

lemma retried_simps:
  "inFlight (retried n k w) = inFlight w"
  "timers (retried n k w) = timers w"
  "length (fetches (retried n k w)) = length (fetches w)"
  "n < length (fetches w) \<Longrightarrow> retryCount (fetches (retried n k w) ! n) = k"
  "n < length (fetches w) \<Longrightarrow> request (fetches (retried n k w) ! n) = request (fetches w ! n)"
  by (simp_all add: retried_def)

lemma run_rounds:
  assumes "n \<in> inFlight w" and "n \<notin> timers w" and "n < length (fetches w)"
    and "retryCount (fetches w ! n) = 0" and "m \<le> 5"
  shows "run b
      (concat (map (\<lambda>i. [Response n (result i) OVER_QUERY_LIMIT (random i), TimerFired n]) [0..<m])) w
    = Some (retried n m w,
        concat (map (\<lambda>i. [SetTimeout n (retry_delay i (random i)),
                           GetDetails n (request (fetches w ! n))]) [0..<m]))"
  using assms(5)
proof (induction m)
  case 0
  show ?case using retried_same[OF assms(3)] assms(4) by simp
next
  case (Suc m)
  then have m5: "m < 5" and IH: "run b
      (concat (map (\<lambda>i. [Response n (result i) OVER_QUERY_LIMIT (random i), TimerFired n]) [0..<m])) w
    = Some (retried n m w,
        concat (map (\<lambda>i. [SetTimeout n (retry_delay i (random i)),
                           GetDetails n (request (fetches w ! n))]) [0..<m]))"
    by simp_all
  have round: "run b [Response n (result m) OVER_QUERY_LIMIT (random m), TimerFired n]
      (retried n m w)
    = Some (retried n (Suc m) w,
        [SetTimeout n (retry_delay m (random m)), GetDetails n (request (fetches w ! n))])"
    using run_round[of n "retried n m w" m b "result m" "random m"] assms(1,2,3) m5
    by (simp add: retried_simps retried_retried)
  show ?case
    by (simp only: upt_Suc_append[OF le0] map_append concat_append run_append IH round
        option.case prod.case list.map concat.simps append_Nil2)
qed

text \<open>
  In every sequence of events, the count of retries of a function is the number of
  timeouts it has set, and it never exceeds 5.
\<close>

lemma timeouts_of_append:
  "timeouts_of n (xs @ ys) = timeouts_of n xs @ timeouts_of n ys"
  by (simp add: timeouts_of_def)

lemma processResult_timeouts:
  assumes "processResult b m result status random w = (w', effects)"
    and "n < length (fetches w)" and "m < length (fetches w)"
  shows "length (fetches w') = length (fetches w)
    \<and> retryCount (fetches w' ! n) = retryCount (fetches w ! n) + length (timeouts_of n effects)
    \<and> (retryCount (fetches w ! n) \<le> 5 \<longrightarrow> retryCount (fetches w' ! n) \<le> 5)"
  using assms
  by (cases "m = n")
    (auto simp add: processResult_def Let_def timeouts_of_def
      split: if_splits option.splits prod.splits completion.splits)

lemma step_timeouts:
  assumes "step b e w = Some (w', effects)" and "n < length (fetches w)"
  shows "n < length (fetches w')
    \<and> retryCount (fetches w' ! n) = retryCount (fetches w ! n) + length (timeouts_of n effects)
    \<and> (retryCount (fetches w ! n) \<le> 5 \<longrightarrow> retryCount (fetches w' ! n) \<le> 5)"
proof (cases e)
  case (Fetch pid fs' cb)
  show ?thesis
  proof (cases "pid = [] \<or> fs' = None")
    case True
    with assms Fetch show ?thesis by (auto simp add: fetchPlaceDetails_def timeouts_of_def)
  next
    case False
    then obtain fs where fs: "fs' = Some fs" and pid: "pid \<noteq> []" by auto
    define missing where "missing = filter (\<lambda>field. field \<notin> fetchedFields (place_of w pid)) fs"
    define w1 where "w1 = w\<lparr>placeIdsToDetails := (placeIdsToDetails w)(pid \<mapsto> place_of w pid)\<rparr>"
    define w2 where "w2 = w1\<lparr>fetches := fetches w
        @ [\<lparr>request = (pid, missing), retryCount = 0, callback = cb\<rparr>]\<rparr>"
    note unfold = fetchPlaceDetails_Some[OF pid missing_def w1_def w2_def, of b]
    have f2: "fetches w2 ! n = fetches w ! n" "n < length (fetches w2)"
      "length (fetches w) < length (fetches w2)"
      using assms(2) by (simp_all add: w2_def w1_def nth_append)
    from assms(1) Fetch fs have r: "fetchPlaceDetails b pid (Some fs) cb w = (w', effects)"
      by simp
    show ?thesis
    proof (cases "missing = []")
      case True
      with r assms(2) show ?thesis by (auto simp add: unfold w1_def timeouts_of_def)
    next
      case ne: False
      show ?thesis
      proof (cases "autoCompleteResult_of w pid")
        case None
        with ne r f2 show ?thesis by (auto simp add: unfold timeouts_of_def)
      next
        case (Some result)
        with ne r
        have "processResult b (length (fetches w)) (Some result) OK NaN w2 = (w', effects)"
          by (simp add: unfold)
        from processResult_timeouts[OF this f2(2,3)] f2 show ?thesis by auto
      qed
    qed
  qed
next
  case (Response m result status random)
  with assms have m: "m < length (fetches w)"
    and p: "processResult b m result status random (w\<lparr>inFlight := inFlight w - {m}\<rparr>)
      = (w', effects)"
    by (auto split: if_splits)
  from processResult_timeouts[OF p, of n] assms(2) m show ?thesis by auto
next
  case (TimerFired m)
  with assms show ?thesis
    by (auto simp add: timer_fired_def timeouts_of_def split: if_splits)
qed

lemma run_timeouts:
  assumes "run b es w = Some (w', effects)" and "n < length (fetches w)"
    and "retryCount (fetches w ! n) \<le> 5"
  shows "n < length (fetches w')
    \<and> retryCount (fetches w' ! n) = retryCount (fetches w ! n) + length (timeouts_of n effects)
    \<and> retryCount (fetches w' ! n) \<le> 5"
  using assms
proof (induction es arbitrary: w effects)
  case Nil
  then show ?case by (simp add: timeouts_of_def)
next
  case (Cons e es)
  from Cons.prems(1) obtain w1 eff1 eff2 where
    s: "step b e w = Some (w1, eff1)" and r: "run b es w1 = Some (w', eff2)"
    and e: "effects = eff1 @ eff2"
    by (auto split: option.splits prod.splits)
  from step_timeouts[OF s Cons.prems(2)] Cons.prems(3)
  have 1: "n < length (fetches w1)"
    "retryCount (fetches w1 ! n) = retryCount (fetches w ! n) + length (timeouts_of n eff1)"
    "retryCount (fetches w1 ! n) \<le> 5" by auto
  from Cons.IH[OF r 1(1) 1(3)] 1(2) show ?case
    by (simp add: e timeouts_of_append)
qed

text \<open>The delays for the jitter \<open>1 / 2\<close>, and the state \<open>one_request\<close> as the code makes it.\<close>

lemma retry_delay_half:
  "retry_delay 0 (Fin (1 / 2)) = Fin 750"
  "retry_delay (Suc 0) (Fin (1 / 2)) = Fin 1250"
  "retry_delay 2 (Fin (1 / 2)) = Fin 2250"
  "retry_delay 3 (Fin (1 / 2)) = Fin 4250"
  "retry_delay 4 (Fin (1 / 2)) = Fin 8250"
  by code_simp+

lemma upt_0_5: "[0..<5] = [0, 1, 2, 3, 4]"
  by code_simp

lemma one_request_is_fetch:
  "fetchPlaceDetails b ''p'' (Some [''name'']) ''cb'' (initializePlaceDetails [])
     = (one_request, [GetDetails 0 (''p'', [''name''])])"
  by (simp add: fetchPlaceDetails_def initializePlaceDetails_def Let_def one_request_def
      place_of_def autoCompleteResult_of_def new_place_def)

text \<open>
  C1. A call of \<open>getDetails\<close> is in flight for a function \<open>processResult\<close> that has not
  retried yet, and the service answers it and every retry with \<open>OVER_QUERY_LIMIT\<close>;
  \<open>random i\<close> is the number that \<open>Math.random()\<close> gives at the answer number \<open>i\<close>, some
  number from 0 up to but not including 1. Then each of the first five answers sets a
  timeout with the delay \<open>(2 ^ i + random i) * 500\<close> milliseconds, and when the timeout
  fires the same request is sent again; the sixth answer does nothing: no timeout, no
  request, no callback, no error. The delay number \<open>i\<close> lies between \<open>500 * 2 ^ i\<close> and
  \<open>500 * 2 ^ i + 500\<close>, and no delay is less than the one before it. After the sixth
  answer no event concerns the function any more. Whatever the order of the events
  and whatever the service answers, the function sets at most five timeouts.
\<close>

theorem over_query_limit_retries:
  assumes "n \<in> inFlight w" and "n \<notin> timers w" and "n < length (fetches w)"
    and "retryCount (fetches w ! n) = 0"
    and "\<forall>i. \<exists>j. random i = Fin j \<and> 0 \<le> j \<and> j < 1"
  shows "run b
      (concat (map (\<lambda>i. [Response n (result i) OVER_QUERY_LIMIT (random i), TimerFired n]) [0..<5])
       @ [Response n (result 5) OVER_QUERY_LIMIT (random 5)]) w
    = Some ((retried n 5 w)\<lparr>inFlight := inFlight w - {n}\<rparr>,
        concat (map (\<lambda>i. [SetTimeout n (retry_delay i (random i)),
                           GetDetails n (request (fetches w ! n))]) [0..<5]))
    \<and> (\<forall>i<5. \<exists>d. retry_delay i (random i) = Fin d \<and> 500 * 2 ^ i \<le> d \<and> d \<le> 500 * 2 ^ i + 500)
    \<and> (\<forall>i<4. js_le (retry_delay i (random i)) (retry_delay (Suc i) (random (Suc i))))
    \<and> (\<forall>es w' effects.
          run b es ((retried n 5 w)\<lparr>inFlight := inFlight w - {n}\<rparr>) = Some (w', effects)
          \<longrightarrow> (\<forall>e \<in> set es. \<not> concerns n e))
    \<and> (\<forall>es w' effects.
          run b es w = Some (w', effects) \<longrightarrow> length (timeouts_of n effects) \<le> 5)"
proof (intro conjI allI impI)
  let ?w5 = "retried n 5 w"
  have last: "run b [Response n (result 5) OVER_QUERY_LIMIT (random 5)] ?w5
      = Some (?w5\<lparr>inFlight := inFlight w - {n}\<rparr>, [])"
    using assms(1,3) processResult_over_limit_last[of "?w5\<lparr>inFlight := inFlight w - {n}\<rparr>" n b "result 5" "random 5"]
    by (simp add: retried_simps)
  show "run b
      (concat (map (\<lambda>i. [Response n (result i) OVER_QUERY_LIMIT (random i), TimerFired n]) [0..<5])
       @ [Response n (result 5) OVER_QUERY_LIMIT (random 5)]) w
    = Some (?w5\<lparr>inFlight := inFlight w - {n}\<rparr>,
        concat (map (\<lambda>i. [SetTimeout n (retry_delay i (random i)),
                           GetDetails n (request (fetches w ! n))]) [0..<5]))"
    by (simp only: run_append run_rounds[OF assms(1,2,3,4) order_refl] last option.case prod.case
        append_Nil2)
next
  fix i :: nat
  assume "i < 5"
  moreover from assms(5) obtain j where "random i = Fin j" "0 \<le> j" "j < 1" by blast
  ultimately show "\<exists>d. retry_delay i (random i) = Fin d \<and> 500 * 2 ^ i \<le> d \<and> d \<le> 500 * 2 ^ i + 500"
    using retry_delay_bounds[of i j] by simp
next
  fix i :: nat
  assume "i < 4"
  moreover from assms(5) obtain j where "random i = Fin j" "0 \<le> j" "j < 1" by blast
  moreover from assms(5) obtain j' where "random (Suc i) = Fin j'" "0 \<le> j'" "j' < 1" by blast
  ultimately show "js_le (retry_delay i (random i)) (retry_delay (Suc i) (random (Suc i)))"
    using retry_delay_nondecreasing[of i j j'] by simp
next
  fix es w' effects
  assume r: "run b es ((retried n 5 w)\<lparr>inFlight := inFlight w - {n}\<rparr>) = Some (w', effects)"
  have "idle n ((retried n 5 w)\<lparr>inFlight := inFlight w - {n}\<rparr>)"
    using assms(2,3) by (simp add: idle_def retried_simps)
  from run_idle[OF this r] show "\<forall>e \<in> set es. \<not> concerns n e" by blast
next
  fix es w' effects
  assume r: "run b es w = Some (w', effects)"
  from run_timeouts[OF r assms(3)] assms(4) show "length (timeouts_of n effects) \<le> 5"
    by simp
qed

theorem over_query_limit_retries_witness:
  "run example_builtins
     [Response 0 None OVER_QUERY_LIMIT (Fin (1 / 2)), TimerFired 0,
      Response 0 None OVER_QUERY_LIMIT (Fin (1 / 2)), TimerFired 0,
      Response 0 None OVER_QUERY_LIMIT (Fin (1 / 2)), TimerFired 0,
      Response 0 None OVER_QUERY_LIMIT (Fin (1 / 2)), TimerFired 0,
      Response 0 None OVER_QUERY_LIMIT (Fin (1 / 2)), TimerFired 0,
      Response 0 None OVER_QUERY_LIMIT (Fin (1 / 2))]
     one_request
   = Some (one_request\<lparr>fetches := [\<lparr>request = (''p'', [''name'']), retryCount = 5, callback = ''cb''\<rparr>],
             inFlight := {}\<rparr>,
      [SetTimeout 0 (Fin 750), GetDetails 0 (''p'', [''name'']),
       SetTimeout 0 (Fin 1250), GetDetails 0 (''p'', [''name'']),
       SetTimeout 0 (Fin 2250), GetDetails 0 (''p'', [''name'']),
       SetTimeout 0 (Fin 4250), GetDetails 0 (''p'', [''name'']),
       SetTimeout 0 (Fin 8250), GetDetails 0 (''p'', [''name''])])"
proof -
  have h: "0 \<in> inFlight one_request" "0 \<notin> timers one_request"
    "0 < length (fetches one_request)" "retryCount (fetches one_request ! 0) = 0"
    by (simp_all add: one_request_def)
  have r: "\<forall>i::nat. \<exists>j. Fin (1 / 2) = Fin j \<and> 0 \<le> j \<and> j < 1"
    by (intro allI exI[of _ "1 / 2"]) simp
  have events:
    "concat (map (\<lambda>i. [Response 0 None OVER_QUERY_LIMIT (Fin (1 / 2)), TimerFired 0]) [0..<5])
       @ [Response 0 None OVER_QUERY_LIMIT (Fin (1 / 2))]
     = [Response 0 None OVER_QUERY_LIMIT (Fin (1 / 2)), TimerFired 0,
        Response 0 None OVER_QUERY_LIMIT (Fin (1 / 2)), TimerFired 0,
        Response 0 None OVER_QUERY_LIMIT (Fin (1 / 2)), TimerFired 0,
        Response 0 None OVER_QUERY_LIMIT (Fin (1 / 2)), TimerFired 0,
        Response 0 None OVER_QUERY_LIMIT (Fin (1 / 2)), TimerFired 0,
        Response 0 None OVER_QUERY_LIMIT (Fin (1 / 2))]"
    by (simp add: upt_0_5)
  have effects:
    "concat (map (\<lambda>i. [SetTimeout 0 (retry_delay i (Fin (1 / 2))),
                         GetDetails 0 (request (fetches one_request ! 0))]) [0..<5])
     = [SetTimeout 0 (Fin 750), GetDetails 0 (''p'', [''name'']),
        SetTimeout 0 (Fin 1250), GetDetails 0 (''p'', [''name'']),
        SetTimeout 0 (Fin 2250), GetDetails 0 (''p'', [''name'']),
        SetTimeout 0 (Fin 4250), GetDetails 0 (''p'', [''name'']),
        SetTimeout 0 (Fin 8250), GetDetails 0 (''p'', [''name''])]"
    by (simp add: upt_0_5 retry_delay_half one_request_def)
  have final: "(retried 0 5 one_request)\<lparr>inFlight := inFlight one_request - {0}\<rparr>
     = one_request\<lparr>fetches := [\<lparr>request = (''p'', [''name'']), retryCount = 5, callback = ''cb''\<rparr>],
         inFlight := {}\<rparr>"
    by (simp add: retried_def one_request_def)
  from over_query_limit_retries[of 0 one_request "\<lambda>i. Fin (1 / 2)" example_builtins "\<lambda>i. None",
      OF h r]
  have "run example_builtins
      (concat (map (\<lambda>i. [Response 0 None OVER_QUERY_LIMIT (Fin (1 / 2)), TimerFired 0]) [0..<5])
       @ [Response 0 None OVER_QUERY_LIMIT (Fin (1 / 2))]) one_request
    = Some ((retried 0 5 one_request)\<lparr>inFlight := inFlight one_request - {0}\<rparr>,
        concat (map (\<lambda>i. [SetTimeout 0 (retry_delay i (Fin (1 / 2))),
                           GetDetails 0 (request (fetches one_request ! 0))]) [0..<5]))"
    by (rule conjunct1)
  then show ?thesis
    by (simp only: events effects final)
qed

subsection \<open>The fetched fields\<close>

text \<open>
  No step takes a place away from the widget or a field away from the fetched fields
  of a place.
\<close>

lemma fields_kept_refl: "fields_kept w w"
  by (simp add: fields_kept_def)

lemma fields_kept_trans: "fields_kept w w' \<Longrightarrow> fields_kept w' w'' \<Longrightarrow> fields_kept w w''"
  unfolding fields_kept_def by (meson order_trans)

lemma fields_kept_same_places:
  "placeIdsToDetails w' = placeIdsToDetails w \<Longrightarrow> fields_kept w w'"
  by (simp add: fields_kept_def)

lemma fields_kept_update:
  assumes "\<And>place. placeIdsToDetails w pid = Some place \<Longrightarrow> fetchedFields place \<subseteq> fetchedFields place'"
    and "placeIdsToDetails w' = (placeIdsToDetails w)(pid \<mapsto> place')"
  shows "fields_kept w w'"
  using assms by (auto simp add: fields_kept_def)

lemma fetchedFields_addStarIcons: "fetchedFields (addStarIcons place) = fetchedFields place"
  by (simp add: addStarIcons_def Let_def split: option.splits)

lemma fetchedFields_basic_details:
  "fetchedFields (fst (basic_details b result place)) = fetchedFields place"
  by (simp add: basic_details_def set_type_and_icon_def Let_def split: option.splits list.splits)

lemma fetchedFields_contact_details:
  "fetchedFields (fst (contact_details b result place)) = fetchedFields place"
  by (simp add: contact_details_def Let_def split: option.splits)

lemma fetchedFields_review_details:
  "fetchedFields (review_details result place) = fetchedFields place"
  by (simp add: review_details_def Let_def fetchedFields_addStarIcons split: option.splits)

lemma fetchedFields_assign_details:
  "fetchedFields (fst (assign_details b result missingFields place)) =
     (if snd (assign_details b result missingFields place) = Normal
      then fetchedFields place \<union> set missingFields else fetchedFields place)"
proof -
  obtain p1 c1 where bd: "basic_details b result place = (p1, c1)"
    by (cases "basic_details b result place")
  obtain p2 c2 where c: "contact_details b result p1 = (p2, c2)"
    by (cases "contact_details b result p1")
  from bd have f1: "fetchedFields p1 = fetchedFields place"
    using fetchedFields_basic_details[of b result place] by simp
  from c have f2: "fetchedFields p2 = fetchedFields p1"
    using fetchedFields_contact_details[of b result p1] by simp
  show ?thesis
    by (cases c1; cases c2)
      (simp_all add: assign_details_def bd c f1 f2 fetchedFields_review_details)
qed

lemma processResult_fields_kept:
  assumes "processResult b n result status random w = (w', effects)"
  shows "fields_kept w w'"
proof (cases "status = OK")
  case False
  with assms have "placeIdsToDetails w' = placeIdsToDetails w"
    by (auto simp add: processResult_def Let_def split: if_splits)
  then show ?thesis by (rule fields_kept_same_places)
next
  case True
  let ?pid = "fst (request (fetches w ! n))"
  show ?thesis
  proof (cases "\<exists>r place. result = Some r \<and> placeIdsToDetails w ?pid = Some place")
    case False
    with True assms have "w' = w"
      by (auto simp add: processResult_def Let_def split: option.splits)
    then show ?thesis by (simp add: fields_kept_refl)
  next
    case ex: True
    then obtain r place where r: "result = Some r" and p: "placeIdsToDetails w ?pid = Some place"
      by blast
    let ?a = "assign_details b r (snd (request (fetches w ! n))) place"
    from True r p assms have "placeIdsToDetails w' = (placeIdsToDetails w)(?pid \<mapsto> fst ?a)"
      by (auto simp add: processResult_def Let_def split: prod.splits completion.splits)
    moreover have "fetchedFields place \<subseteq> fetchedFields (fst ?a)"
      by (auto simp add: fetchedFields_assign_details)
    ultimately show ?thesis
      using p by (intro fields_kept_update[of w ?pid "fst ?a"]) auto
  qed
qed

lemma fetchPlaceDetails_fields_kept:
  assumes "fetchPlaceDetails b pid fs' cb w = (w', effects)"
  shows "fields_kept w w'"
proof (cases "pid = [] \<or> fs' = None")
  case True
  with assms have "w' = w" by (auto simp add: fetchPlaceDetails_def)
  then show ?thesis by (simp add: fields_kept_refl)
next
  case False
  then obtain fs where fs: "fs' = Some fs" and pid: "pid \<noteq> []" by auto
  define missing where "missing = filter (\<lambda>field. field \<notin> fetchedFields (place_of w pid)) fs"
  define w1 where "w1 = w\<lparr>placeIdsToDetails := (placeIdsToDetails w)(pid \<mapsto> place_of w pid)\<rparr>"
  define w2 where "w2 = w1\<lparr>fetches := fetches w
      @ [\<lparr>request = (pid, missing), retryCount = 0, callback = cb\<rparr>]\<rparr>"
  note unfold = fetchPlaceDetails_Some[OF pid missing_def w1_def w2_def, of b]
  have k1: "fields_kept w w1"
    by (intro fields_kept_update[of w pid "place_of w pid"]) (simp_all add: w1_def place_of_def)
  have k2: "fields_kept w w2"
    using k1 by (simp add: fields_kept_def w2_def)
  show ?thesis
  proof (cases "missing = []")
    case True
    with assms k1 show ?thesis by (simp add: fs unfold)
  next
    case ne: False
    show ?thesis
    proof (cases "autoCompleteResult_of w pid")
      case None
      with ne assms have "w' = w2\<lparr>inFlight := insert (length (fetches w)) (inFlight w)\<rparr>"
        by (simp add: fs unfold)
      with k2 show ?thesis by (simp add: fields_kept_def)
    next
      case (Some result)
      with ne assms
      have "processResult b (length (fetches w)) (Some result) OK NaN w2 = (w', effects)"
        by (simp add: fs unfold)
      from fields_kept_trans[OF k2 processResult_fields_kept[OF this]] show ?thesis .
    qed
  qed
qed

lemma step_fields_kept:
  assumes "step b e w = Some (w', effects)"
  shows "fields_kept w w'"
proof (cases e)
  case (Fetch pid fs' cb)
  with assms show ?thesis by (auto intro: fetchPlaceDetails_fields_kept)
next
  case (Response n result status random)
  with assms have "processResult b n result status random (w\<lparr>inFlight := inFlight w - {n}\<rparr>)
      = (w', effects)"
    by (auto split: if_splits)
  from processResult_fields_kept[OF this] show ?thesis by (simp add: fields_kept_def)
next
  case (TimerFired n)
  with assms show ?thesis
    by (auto simp add: timer_fired_def fields_kept_def split: if_splits)
qed

lemma run_fields_kept:
  assumes "run b es w = Some (w', effects)"
  shows "fields_kept w w'"
  using assms
proof (induction es arbitrary: w effects)
  case Nil
  then show ?case by (simp add: fields_kept_refl)
next
  case (Cons e es)
  from Cons.prems obtain w1 eff1 eff2 where
    s: "step b e w = Some (w1, eff1)" and r: "run b es w1 = Some (w', eff2)"
    by (auto split: option.splits prod.splits)
  from fields_kept_trans[OF step_fields_kept[OF s] Cons.IH[OF r]] show ?case .
qed

lemma fetchPlaceDetails_request_missing:
  assumes "GetDetails n req \<in> set (snd (fetchPlaceDetails b pid fs' cb w))"
  shows "n = length (fetches w) \<and> fst req = pid
    \<and> set (snd req) \<inter> fetchedFields (place_of w pid) = {}"
proof (cases "pid = [] \<or> fs' = None")
  case True
  with assms show ?thesis by (auto simp add: fetchPlaceDetails_def)
next
  case False
  then obtain fs where fs: "fs' = Some fs" and pid: "pid \<noteq> []" by auto
  define missing where "missing = filter (\<lambda>field. field \<notin> fetchedFields (place_of w pid)) fs"
  note unfold = fetchPlaceDetails_Some[OF pid missing_def refl refl, of b cb]
  have d: "set missing \<inter> fetchedFields (place_of w pid) = {}"
    by (auto simp add: missing_def)
  show ?thesis
  proof (cases "missing = []")
    case True
    with assms show ?thesis by (simp add: fs unfold)
  next
    case ne: False
    show ?thesis
    proof (cases "autoCompleteResult_of w pid")
      case None
      with ne assms d show ?thesis by (simp add: fs unfold)
    next
      case (Some result)
      with ne assms processResult_OK_effects show ?thesis by (fastforce simp add: fs unfold)
    qed
  qed
qed

text \<open>The request of a function \<open>processResult\<close> is the same for ever.\<close>

lemma processResult_requests:
  assumes "processResult b n result status random w = (w', effects)" and "m < length (fetches w)"
  shows "m < length (fetches w') \<and> request (fetches w' ! m) = request (fetches w ! m)"
proof -
  have "request ((fetches w)[n := (fetches w ! n)\<lparr>retryCount := k\<rparr>] ! m) = request (fetches w ! m)"
    for k
    using assms(2) by (cases "m = n") simp_all
  with assms show ?thesis
    by (auto simp add: processResult_def Let_def
        split: if_splits option.splits prod.splits completion.splits)
qed

lemma fetchPlaceDetails_requests:
  assumes "fetchPlaceDetails b pid fs' cb w = (w', effects)" and "m < length (fetches w)"
  shows "m < length (fetches w') \<and> request (fetches w' ! m) = request (fetches w ! m)"
proof (cases "pid = [] \<or> fs' = None")
  case True
  with assms show ?thesis by (auto simp add: fetchPlaceDetails_def)
next
  case False
  then obtain fs where fs: "fs' = Some fs" and pid: "pid \<noteq> []" by auto
  define missing where "missing = filter (\<lambda>field. field \<notin> fetchedFields (place_of w pid)) fs"
  define w1 where "w1 = w\<lparr>placeIdsToDetails := (placeIdsToDetails w)(pid \<mapsto> place_of w pid)\<rparr>"
  define w2 where "w2 = w1\<lparr>fetches := fetches w
      @ [\<lparr>request = (pid, missing), retryCount = 0, callback = cb\<rparr>]\<rparr>"
  note unfold = fetchPlaceDetails_Some[OF pid missing_def w1_def w2_def, of b]
  have w2: "m < length (fetches w2)" "request (fetches w2 ! m) = request (fetches w ! m)"
    using assms(2) by (simp_all add: w2_def w1_def nth_append)
  show ?thesis
  proof (cases "missing = []")
    case True
    with assms show ?thesis by (auto simp add: fs unfold w1_def)
  next
    case ne: False
    show ?thesis
    proof (cases "autoCompleteResult_of w pid")
      case None
      with ne assms w2 show ?thesis by (auto simp add: fs unfold)
    next
      case (Some result)
      with ne assms have "processResult b (length (fetches w)) (Some result) OK NaN w2 = (w', effects)"
        by (simp add: fs unfold)
      from processResult_requests[OF this w2(1)] w2(2) show ?thesis by simp
    qed
  qed
qed

lemma step_requests:
  assumes "step b e w = Some (w', effects)" and "m < length (fetches w)"
  shows "m < length (fetches w') \<and> request (fetches w' ! m) = request (fetches w ! m)"
proof (cases e)
  case (Fetch pid fs' cb)
  with assms fetchPlaceDetails_requests[of b pid fs' cb w w' effects m] show ?thesis by simp
next
  case (Response n result status random)
  with assms have "processResult b n result status random (w\<lparr>inFlight := inFlight w - {n}\<rparr>)
      = (w', effects)"
    by (simp split: if_splits)
  from processResult_requests[OF this] assms(2) show ?thesis by simp
next
  case (TimerFired n)
  with assms show ?thesis by (auto simp add: timer_fired_def split: if_splits)
qed

lemma run_requests:
  assumes "run b es w = Some (w', effects)" and "m < length (fetches w)"
  shows "m < length (fetches w') \<and> request (fetches w' ! m) = request (fetches w ! m)"
  using assms
proof (induction es arbitrary: w effects)
  case Nil
  then show ?case by simp
next
  case (Cons e es)
  from Cons.prems(1) obtain w1 effects1 effects2 where
    s: "step b e w = Some (w1, effects1)" and r: "run b es w1 = Some (w', effects2)"
    by (auto split: option.splits prod.splits)
  from step_requests[OF s Cons.prems(2)] Cons.IH[OF r] show ?case by simp
qed

lemma run_one_request_OK:
  "run example_builtins [Response 0 (Some name_result) OK NaN] one_request
     = Some (one_request\<lparr>placeIdsToDetails := [''p'' \<mapsto> clinic], inFlight := {}\<rparr>,
         [Callback ''cb'' clinic])"
  by (simp add: one_request_def processResult_def assign_details_def basic_details_def
      contact_details_def review_details_def name_result_def clinic_def new_place_def
      truthy_string_def truthy_number_def Let_def insert_commute)

text \<open>
  C4, a field that is requested again after it has been fetched. The page asks for the
  name and the rating of a place, and the service answers with \<open>OVER_QUERY_LIMIT\<close>, so
  a timeout is set. Meanwhile the page asks for the name alone, and the service gives
  it: the name is now among the fetched fields. Then the timeout fires, and the first
  request is sent again as it was made, with the name in it.
\<close>

theorem fetched_field_requested_again:
  "map_option snd (run example_builtins
       [Fetch ''p'' (Some [''name'', ''rating'']) ''A'',
        Response 0 None OVER_QUERY_LIMIT (Fin 0),
        Fetch ''p'' (Some [''name'']) ''B'',
        Response 1 (Some name_result) OK NaN]
       (initializePlaceDetails []))
     = Some [GetDetails 0 (''p'', [''name'', ''rating'']), SetTimeout 0 (Fin 500),
             GetDetails 1 (''p'', [''name'']), Callback ''B'' clinic]
   \<and> ''name'' \<in> fetchedFields (place_of (fst (the (run example_builtins
       [Fetch ''p'' (Some [''name'', ''rating'']) ''A'',
        Response 0 None OVER_QUERY_LIMIT (Fin 0),
        Fetch ''p'' (Some [''name'']) ''B'',
        Response 1 (Some name_result) OK NaN]
       (initializePlaceDetails [])))) ''p'')
   \<and> map_option snd (step example_builtins (TimerFired 0) (fst (the (run example_builtins
       [Fetch ''p'' (Some [''name'', ''rating'']) ''A'',
        Response 0 None OVER_QUERY_LIMIT (Fin 0),
        Fetch ''p'' (Some [''name'']) ''B'',
        Response 1 (Some name_result) OK NaN]
       (initializePlaceDetails [])))))
     = Some [GetDetails 0 (''p'', [''name'', ''rating''])]"
  by code_simp

text \<open>
  C4. The fetched fields of a place only grow: over every sequence of events every
  place stays in the widget with all the fetched fields it had. The request that a
  call of \<open>fetchPlaceDetails\<close> sends has none of the fields that are fetched when the
  call is made. The request of a function \<open>processResult\<close> is never changed, and a
  timeout that fires sends the request of its function again as it is (whatever has
  been fetched since the call).
\<close>

theorem fetched_fields_grow:
  "(run b es w = Some (w', effects) \<longrightarrow>
      fields_kept w w'
      \<and> (\<forall>m < length (fetches w).
            m < length (fetches w') \<and> request (fetches w' ! m) = request (fetches w ! m)))
   \<and> (\<forall>n req. GetDetails n req \<in> set (snd (fetchPlaceDetails b pid fs' cb w))
         \<longrightarrow> n = length (fetches w) \<and> fst req = pid
             \<and> set (snd req) \<inter> fetchedFields (place_of w pid) = {})
   \<and> (step b (TimerFired m) w = Some (w'', effects'')
        \<longrightarrow> effects'' = [GetDetails m (request (fetches w ! m))])"
proof (intro conjI allI impI)
  assume r: "run b es w = Some (w', effects)"
  then show "fields_kept w w'" by (rule run_fields_kept)
  fix k
  assume "k < length (fetches w)"
  with r show "k < length (fetches w')" "request (fetches w' ! k) = request (fetches w ! k)"
    using run_requests[of b es w w' effects k] by simp_all
next
  fix n req
  assume "GetDetails n req \<in> set (snd (fetchPlaceDetails b pid fs' cb w))"
  from fetchPlaceDetails_request_missing[OF this]
  show "n = length (fetches w)" "fst req = pid"
    "set (snd req) \<inter> fetchedFields (place_of w pid) = {}"
    by simp_all
next
  assume "step b (TimerFired m) w = Some (w'', effects'')"
  then show "effects'' = [GetDetails m (request (fetches w ! m))]"
    by (auto simp add: timer_fired_def split: if_splits)
qed

theorem fetched_fields_grow_witness:
  "fields_kept one_request
     (one_request\<lparr>placeIdsToDetails := [''p'' \<mapsto> clinic], inFlight := {}\<rparr>)
   \<and> request (fetches (one_request\<lparr>placeIdsToDetails := [''p'' \<mapsto> clinic],
          inFlight := {}\<rparr>) ! 0)
       = (''p'', [''name''])
   \<and> GetDetails 0 (''p'', [''rating''])
       \<in> set (snd (fetchPlaceDetails example_builtins ''p'' (Some [''name'', ''rating'']) ''cb''
                     clinic_widget))
   \<and> set [''rating''] \<inter> fetchedFields (place_of clinic_widget ''p'') = {}
   \<and> step example_builtins (TimerFired 0) (one_request\<lparr>inFlight := {}, timers := {0}\<rparr>)
       = Some (one_request, [GetDetails 0 (''p'', [''name''])])"
proof -
  have sent: "GetDetails 0 (''p'', [''rating''])
       \<in> set (snd (fetchPlaceDetails example_builtins ''p'' (Some [''name'', ''rating'']) ''cb''
                     clinic_widget))"
    by (simp add: fetchPlaceDetails_def clinic_widget_def clinic_def Let_def)
  have fired: "step example_builtins (TimerFired 0) (one_request\<lparr>inFlight := {}, timers := {0}\<rparr>)
       = Some (one_request, [GetDetails 0 (''p'', [''name''])])"
    by (simp add: timer_fired_def one_request_def)
  have len: "0 < length (fetches one_request)"
    by (simp add: one_request_def)
  have req: "request (fetches one_request ! 0) = (''p'', [''name''])"
    by (simp add: one_request_def)
  from fetched_fields_grow[where b = example_builtins
      and es = "[Response 0 (Some name_result) OK NaN]" and w = one_request
      and w' = "one_request\<lparr>placeIdsToDetails := [''p'' \<mapsto> clinic], inFlight := {}\<rparr>"
      and effects = "[Callback ''cb'' clinic]"]
    run_one_request_OK len req
  have first: "fields_kept one_request
       (one_request\<lparr>placeIdsToDetails := [''p'' \<mapsto> clinic], inFlight := {}\<rparr>)
     \<and> request (fetches (one_request\<lparr>placeIdsToDetails := [''p'' \<mapsto> clinic],
          inFlight := {}\<rparr>) ! 0)
       = (''p'', [''name''])"
    by simp
  from fetched_fields_grow[where b = example_builtins and w = clinic_widget and pid = "''p''"
      and fs' = "Some [''name'', ''rating'']" and cb = "''cb''"] sent
  have "set (snd (''p'', [''rating''])) \<inter> fetchedFields (place_of clinic_widget ''p'') = {}"
    by blast
  with first sent fired show ?thesis by simp
qed

end
